theory Spec2Isabelle
  imports Main "HOL-Library.Word" "HOL-Library.Sublist"
begin

unbundle bit_operations_syntax

section \<open>Messages, commands and the application\<close>

text \<open>
  \<^verbatim>\<open>tea.go\<close>: \<^verbatim>\<open>type Msg interface{}\<close> and \<^verbatim>\<open>type Cmd func() Msg\<close>.
  A message is a value tagged by its concrete type; the event loop switches on that type.
  The runtime's own message types are the constructors below; \<open>appMsg\<close> carries every
  other message (keys, window sizes, the application's own types).
  A command is either the nil function value or a function: \<open>Cmd m\<close> is a command
  whose invocation returns the message \<open>m\<close>, \<open>endlessCmd\<close> one whose invocation never
  returns (it waits for something that does not come).
\<close>

datatype 'a Msg =
    quitMsg
  | clearScreenMsg
  | enterAltScreenMsg
  | exitAltScreenMsg
  | enableMouseCellMotionMsg
  | enableMouseAllMotionMsg
  | disableMouseMsg
  | showCursorMsg
  | hideCursorMsg
  | execMsg
  | batchMsg "'a Cmd list"
  | sequenceMsg "'a Cmd list"
  | printLineMessage string
  | repaintMsg
  | appMsg 'a
and 'a Cmd =
    nilCmd
  | Cmd "'a Msg"
  | endlessCmd

datatype error = ErrProgramKilled | infraError string

text \<open>
  The \<^verbatim>\<open>Model\<close> interface: three methods over the application's state, here a value of
  type \<open>'m\<close>. \<^verbatim>\<open>Update\<close> returns the next state and a command (possibly nil).
\<close>

record ('m, 'a) Model =
  Init :: "'m \<Rightarrow> 'a Cmd"
  Update :: "'m \<Rightarrow> 'a Msg \<Rightarrow> 'm \<times> 'a Cmd"
  View :: "'m \<Rightarrow> string"

section \<open>The renderer\<close>

text \<open>The methods of the \<^verbatim>\<open>renderer\<close> interface that \<^verbatim>\<open>tea.go\<close> calls.\<close>

datatype 'a rcall =
    start
  | stop
  | kill
  | writeFrame string
  | clearScreen
  | enterAltScreen
  | exitAltScreen
  | enableMouseCellMotion
  | enableMouseAllMotion
  | disableMouseCellMotion
  | disableMouseAllMotion
  | showCursor
  | hideCursor
  | handleMessages "'a Msg"

record renderer =
  standard :: bool
  altScreenActive :: bool
  mouseCellMotion :: bool
  mouseAllMotion :: bool
  cursorHidden :: bool

text \<open>
  Modelled from the spec: the renderer's implementation is not part of \<^verbatim>\<open>tea.go\<close>.
  The renderer "owns alt-screen/mouse/cursor terminal mode toggles" and answers "a query
  for whether alt-screen is currently active": each toggle sets its mode, the two mouse
  modes are separate, and every other method leaves the modes alone.
  \<open>standard\<close> says that the value's dynamic type is \<^verbatim>\<open>*standardRenderer\<close>.
\<close>

fun rapply :: "'a rcall \<Rightarrow> renderer \<Rightarrow> renderer" where
  "rapply enterAltScreen r = r\<lparr>altScreenActive := True\<rparr>"
| "rapply exitAltScreen r = r\<lparr>altScreenActive := False\<rparr>"
| "rapply enableMouseCellMotion r = r\<lparr>mouseCellMotion := True\<rparr>"
| "rapply enableMouseAllMotion r = r\<lparr>mouseAllMotion := True\<rparr>"
| "rapply disableMouseCellMotion r = r\<lparr>mouseCellMotion := False\<rparr>"
| "rapply disableMouseAllMotion r = r\<lparr>mouseAllMotion := False\<rparr>"
| "rapply showCursor r = r\<lparr>cursorHidden := False\<rparr>"
| "rapply hideCursor r = r\<lparr>cursorHidden := True\<rparr>"
| "rapply start r = r"
| "rapply stop r = r"
| "rapply kill r = r"
| "rapply (writeFrame s) r = r"
| "rapply clearScreen r = r"
| "rapply (handleMessages m) r = r"

definition altScreen :: "renderer \<Rightarrow> bool" where
  "altScreen r = altScreenActive r"

section \<open>The program\<close>

text \<open>
  What a run does is recorded, in order, in the program's \<open>trace\<close>: calls of renderer
  methods, invocations of the application's methods, sends on the command channel,
  goroutines started with \<^verbatim>\<open>go\<close>, and calls of helpers that live outside \<^verbatim>\<open>tea.go\<close>.
\<close>

datatype 'a task =
    signalTask
  | initCmdTask "'a Cmd"
  | resizeTask
  | commandTask
  | sendTask "'a Msg"
  | sequenceTask "'a Cmd list"

datatype ('m, 'a) action =
    Renders "'a rcall"
  | Inits 'm
  | Updates 'm "'a Msg"
  | Views 'm
  | CmdsSend "'a Cmd"
  | Invokes "'a Cmd"
  | Go "'a task"
  | Exec
  | External string

text \<open>
  \<^verbatim>\<open>p.input\<close>: nil, an \<^verbatim>\<open>*os.File\<close> (a terminal or not), or another reader (an
  \<^verbatim>\<open>io.ReadCloser\<close> or not).
\<close>

datatype input = nilInput | fileInput bool | readerInput bool

text \<open>
  Where a goroutine of the runtime is: not started, waiting in its \<^verbatim>\<open>select\<close>, blocked
  in the statement it went into from there, or returned. The goroutine of
  \<^verbatim>\<open>handleCommands\<close> is blocked while it is inside a command that does not return; the
  goroutine of \<^verbatim>\<open>handleSignals\<close> is blocked while it is in its send
  \<^verbatim>\<open>p.msgs <- quitMsg{}\<close> and the event loop has not received it.
\<close>

datatype goroutine = absent | waiting | blocked | ended

text \<open>
  \<^verbatim>\<open>type handlers []chan struct{}\<close>: one channel for each goroutine that \<^verbatim>\<open>Run\<close> waits
  for, named here by the goroutine that closes it.
\<close>

datatype handler = signalHandler | initHandler | resizeHandler | commandHandler

text \<open>
  The fields of \<^verbatim>\<open>Program\<close> that the modelled methods read or write, and the state of
  a run that the other goroutines share with it.
  \<open>ctxDone\<close> is the state of \<^verbatim>\<open>p.ctx\<close> (cancelled or not); \<open>cancelReader\<close> says that
  \<^verbatim>\<open>p.cancelReader\<close> has been set. \<open>receiving\<close> holds while the event loop is running (it
  is the only receiver of the unbuffered \<^verbatim>\<open>p.msgs\<close>). \<open>dispatcher\<close> is the goroutine of
  \<^verbatim>\<open>handleCommands\<close> (the only receiver of the unbuffered \<^verbatim>\<open>cmds\<close>), \<open>signals\<close> the one
  of \<^verbatim>\<open>handleSignals\<close>; \<open>pendingInit\<close> is the command of \<^verbatim>\<open>Init\<close> while its goroutine is
  still in its \<^verbatim>\<open>select\<close>; \<open>handlers\<close> is the local variable of \<^verbatim>\<open>Run\<close>.
  The renderer is taken to be set: \<^verbatim>\<open>Run\<close> installs the standard one when none was given.
\<close>

record ('m, 'a) Program =
  initialModel :: 'm
  startupOptions :: "8 word"
  ctxDone :: bool
  renderer :: renderer
  input :: input
  cancelReader :: bool
  altScreenWasActive :: bool
  ignoreSignals :: bool
  receiving :: bool
  dispatcher :: goroutine
  signals :: goroutine
  pendingInit :: "'a Cmd option"
  handlers :: "handler list"
  trace :: "('m, 'a) action list"

abbreviation dispatching :: "('m, 'a) Program \<Rightarrow> bool" where
  "dispatching p \<equiv> dispatcher p = waiting"

definition emit :: "('m, 'a) action \<Rightarrow> ('m, 'a) Program \<Rightarrow> ('m, 'a) Program" where
  "emit a p = p\<lparr>trace := trace p @ [a]\<rparr>"

definition rcall :: "'a rcall \<Rightarrow> ('m, 'a) Program \<Rightarrow> ('m, 'a) Program" where
  "rcall c p = emit (Renders c) (p\<lparr>renderer := rapply c (renderer p)\<rparr>)"

subsection \<open>Startup options\<close>

definition has :: "8 word \<Rightarrow> 8 word \<Rightarrow> bool" where
  "has s opt = (s AND opt \<noteq> 0)"

definition withAltScreen :: "8 word" where "withAltScreen = push_bit 0 1"
definition withMouseCellMotion :: "8 word" where "withMouseCellMotion = push_bit 1 1"
definition withMouseAllMotion :: "8 word" where "withMouseAllMotion = push_bit 2 1"
definition withInputTTY :: "8 word" where "withInputTTY = push_bit 3 1"
definition withCustomInput :: "8 word" where "withCustomInput = push_bit 4 1"
definition withANSICompressor :: "8 word" where "withANSICompressor = push_bit 5 1"
definition withoutSignalHandler :: "8 word" where "withoutSignalHandler = push_bit 6 1"
definition withoutCatchPanics :: "8 word" where "withoutCatchPanics = push_bit 7 1"

subsection \<open>Kill and the command dispatcher\<close>

text \<open>\<^verbatim>\<open>Kill\<close> is \<^verbatim>\<open>p.cancel()\<close>.\<close>

definition cancel :: "('m, 'a) Program \<Rightarrow> ('m, 'a) Program" where
  "cancel p = p\<lparr>ctxDone := True\<rparr>"

definition Kill :: "('m, 'a) Program \<Rightarrow> ('m, 'a) Program" where
  "Kill p = cancel p"

text \<open>
  What the goroutine of \<^verbatim>\<open>handleCommands\<close> does with one command it has received
  (\<^verbatim>\<open>case cmd := <-cmds\<close>):
  nil is skipped (\<^verbatim>\<open>continue\<close>); otherwise \<^verbatim>\<open>go p.Send(cmd())\<close> invokes the command (the
  operand of a \<^verbatim>\<open>go\<close> statement is evaluated by the goroutine that executes the statement,
  here the dispatcher itself) and, when the command has returned, starts a goroutine that
  sends the returned message and goes back to its \<^verbatim>\<open>select\<close>. Inside a command that
  does not return the dispatcher stays blocked: it receives no more and does not return.
\<close>

definition handleCommand :: "'a Cmd \<Rightarrow> ('m, 'a) Program \<Rightarrow> ('m, 'a) Program" where
  "handleCommand cmd p =
     (case cmd of
        nilCmd \<Rightarrow> p
      | Cmd m \<Rightarrow> emit (Go (sendTask m)) (emit (Invokes cmd) p)
      | endlessCmd \<Rightarrow> (emit (Invokes cmd) p)\<lparr>dispatcher := blocked\<rparr>)"

text \<open>
  \<^verbatim>\<open>cmds <- cmd\<close>: the channel is unbuffered, so the send completes when the dispatcher
  receives, which it does from its \<^verbatim>\<open>select\<close> (after a command that returns it is back
  there). Once the dispatcher has returned, or while it is inside a command that does not
  return, nobody receives and the sender stays blocked.
\<close>

datatype 's sending = Sent (state: 's) | Stuck (state: 's)

definition cmdsSend :: "'a Cmd \<Rightarrow> ('m, 'a) Program \<Rightarrow> ('m, 'a) Program sending" where
  "cmdsSend cmd p =
     (if dispatching p then Sent (handleCommand cmd (emit (CmdsSend cmd) p)) else Stuck p)"

text \<open>The body of \<^verbatim>\<open>case batchMsg\<close>: \<^verbatim>\<open>for _, cmd := range msg { cmds <- cmd }\<close>.\<close>

fun batch :: "'a Cmd list \<Rightarrow> ('m, 'a) Program \<Rightarrow> ('m, 'a) Program sending" where
  "batch [] p = Sent p"
| "batch (cmd # cmds) p =
     (case cmdsSend cmd p of Stuck p' \<Rightarrow> Stuck p' | Sent p' \<Rightarrow> batch cmds p')"

text \<open>
  The goroutine started by \<^verbatim>\<open>case sequenceMsg\<close>:
  \<^verbatim>\<open>for _, cmd := range msg { p.Send(cmd()) }\<close>. It hands the messages to \<^verbatim>\<open>Send\<close> in
  order; calling a nil function value is a run-time panic, which ends the goroutine (and
  the process) at that command; a command that does not return keeps the goroutine.
\<close>

datatype 'a finished = Completes "'a Msg list" | Panics "'a Msg list" | Hangs "'a Msg list"

fun sequence :: "'a Cmd list \<Rightarrow> 'a finished" where
  "sequence [] = Completes []"
| "sequence (nilCmd # cmds) = Panics []"
| "sequence (endlessCmd # cmds) = Hangs []"
| "sequence (Cmd m # cmds) =
     (case sequence cmds of
        Completes ms \<Rightarrow> Completes (m # ms)
      | Panics ms \<Rightarrow> Panics (m # ms)
      | Hangs ms \<Rightarrow> Hangs (m # ms))"

subsection \<open>The event loop\<close>

text \<open>
  Modelled from the spec: \<^verbatim>\<open>p.exec\<close> is not part of \<^verbatim>\<open>tea.go\<close>. It "runs the requested
  external blocking process to completion" while the loop waits; the call is recorded.
\<close>

definition exec :: "('m, 'a) Program \<Rightarrow> ('m, 'a) Program" where
  "exec p = emit Exec p"

text \<open>
  The cases of the type switch that fall through to the update (\<^verbatim>\<open>quitMsg\<close> returns
  and \<^verbatim>\<open>batchMsg\<close> continues: both are in \<open>eventLoop\<close> below). A message of any other
  type matches no case.
\<close>

fun special :: "'a Msg \<Rightarrow> ('m, 'a) Program \<Rightarrow> ('m, 'a) Program" where
  "special clearScreenMsg p = rcall clearScreen p"
| "special enterAltScreenMsg p = rcall enterAltScreen p"
| "special exitAltScreenMsg p = rcall exitAltScreen p"
| "special enableMouseCellMotionMsg p = rcall enableMouseCellMotion p"
| "special enableMouseAllMotionMsg p = rcall enableMouseAllMotion p"
| "special disableMouseMsg p = rcall disableMouseAllMotion (rcall disableMouseCellMotion p)"
| "special showCursorMsg p = rcall showCursor p"
| "special hideCursorMsg p = rcall hideCursor p"
| "special execMsg p = exec p"
| "special (sequenceMsg cmds) p = emit (Go (sequenceTask cmds)) p"
| "special msg p = p"

text \<open>
  One iteration of the loop is decided by what its \<^verbatim>\<open>select\<close> receives. The schedule
  of a run lists these receptions in order, together with what other goroutines do that
  the loop depends on: a call of \<^verbatim>\<open>Kill\<close>; the return of the dispatcher (its own
  \<^verbatim>\<open>select\<close> takes \<^verbatim>\<open>p.ctx.Done()\<close>); the dispatcher receiving the command of \<^verbatim>\<open>Init\<close>
  from the goroutine that sends it; an interrupt or termination signal taken by the
  goroutine of \<^verbatim>\<open>handleSignals\<close>, which then goes into \<^verbatim>\<open>p.msgs <- quitMsg{}\<close> unless
  signals are ignored. \<open>SelectSignal\<close> is the loop receiving that \<^verbatim>\<open>quitMsg\<close>;
  \<open>SelectMsg\<close> is a message from any other sender.
  A case of a \<^verbatim>\<open>select\<close> that is not ready is never taken, and a goroutine that is not
  in its \<^verbatim>\<open>select\<close> takes nothing: such an event of the schedule does nothing. When
  several cases are ready Go takes any of them, so a message can still be received after
  \<^verbatim>\<open>Kill\<close>.
\<close>

datatype 'a event =
    KillCalled
  | DispatcherExits
  | InitReceived
  | SignalArrives
  | SelectDone
  | SelectErr error
  | SelectMsg "'a Msg"
  | SelectSignal

definition dispatcherExits :: "('m, 'a) Program \<Rightarrow> ('m, 'a) Program" where
  "dispatcherExits p = (if ctxDone p \<and> dispatching p then p\<lparr>dispatcher := ended\<rparr> else p)"

definition initReceived :: "('m, 'a) Program \<Rightarrow> ('m, 'a) Program" where
  "initReceived p =
     (case pendingInit p of
        None \<Rightarrow> p
      | Some cmd \<Rightarrow>
          if dispatching p then handleCommand cmd (p\<lparr>pendingInit := None\<rparr>) else p)"

definition signalArrives :: "('m, 'a) Program \<Rightarrow> ('m, 'a) Program" where
  "signalArrives p =
     (if signals p = waiting \<and> \<not> ignoreSignals p then p\<lparr>signals := blocked\<rparr> else p)"

text \<open>
  The loop returns \<^verbatim>\<open>(model, err)\<close>, or is still waiting in its \<^verbatim>\<open>select\<close> when the
  schedule ends, or is blocked for ever in a send on \<^verbatim>\<open>cmds\<close>.
\<close>

datatype 'm looped = Returned 'm "error option" | Waiting 'm | Blocked 'm

fun eventLoop ::
  "('m, 'a) Model \<Rightarrow> 'm \<Rightarrow> 'a event list \<Rightarrow> ('m, 'a) Program \<Rightarrow> 'm looped \<times> ('m, 'a) Program"
where
  "eventLoop app model [] p = (Waiting model, p)"
| "eventLoop app model (KillCalled # evs) p = eventLoop app model evs (Kill p)"
| "eventLoop app model (DispatcherExits # evs) p = eventLoop app model evs (dispatcherExits p)"
| "eventLoop app model (InitReceived # evs) p = eventLoop app model evs (initReceived p)"
| "eventLoop app model (SignalArrives # evs) p = eventLoop app model evs (signalArrives p)"
| "eventLoop app model (SelectSignal # evs) p =
     (if signals p = blocked then (Returned model None, p\<lparr>signals := ended\<rparr>)
      else eventLoop app model evs p)"
| "eventLoop app model (SelectDone # evs) p =
     (if ctxDone p then (Returned model None, p) else eventLoop app model evs p)"
| "eventLoop app model (SelectErr err # evs) p = (Returned model (Some err), p)"
| "eventLoop app model (SelectMsg quitMsg # evs) p = (Returned model None, p)"
| "eventLoop app model (SelectMsg (batchMsg cmds) # evs) p =
     (case batch cmds p of
        Stuck p' \<Rightarrow> (Blocked model, p')
      | Sent p' \<Rightarrow> eventLoop app model evs p')"
| "eventLoop app model (SelectMsg msg # evs) p =
     (let p1 = special msg p;
          p2 = (if standard (renderer p1) then rcall (handleMessages msg) p1 else p1);
          p3 = emit (Updates model msg) p2
      in case cmdsSend (snd (Update app model msg)) p3 of
           Stuck p4 \<Rightarrow> (Blocked (fst (Update app model msg)), p4)
         | Sent p4 \<Rightarrow>
             eventLoop app (fst (Update app model msg)) evs
               (rcall (writeFrame (View app (fst (Update app model msg))))
                  (emit (Views (fst (Update app model msg))) p4)))"

subsection \<open>Sending from outside\<close>

text \<open>
  A send on the unbuffered \<^verbatim>\<open>p.msgs\<close> completes only while the event loop receives.
  \<^verbatim>\<open>Send\<close> selects between that send and \<^verbatim>\<open>p.ctx.Done()\<close>; when both are ready Go
  picks one, here by \<open>pick\<close> (true for the \<^verbatim>\<open>Done\<close> case). \<open>Blocks\<close>: no case is
  ready, the caller stays in the call.
\<close>

datatype 'a sent = Delivered "'a Msg" | Dropped | Blocks

definition Send :: "('m, 'a) Program \<Rightarrow> bool \<Rightarrow> 'a Msg \<Rightarrow> 'a sent" where
  "Send p pick msg =
     (if ctxDone p \<and> receiving p then (if pick then Dropped else Delivered msg)
      else if ctxDone p then Dropped
      else if receiving p then Delivered msg
      else Blocks)"

definition Quit :: "('m, 'a) Program \<Rightarrow> bool \<Rightarrow> 'a sent" where
  "Quit p pick = Send p pick quitMsg"

text \<open>
  \<^verbatim>\<open>Println\<close> and \<^verbatim>\<open>Printf\<close> send with a plain \<^verbatim>\<open>p.msgs <- ...\<close>. The operands are
  strings here, which \<^verbatim>\<open>fmt.Sprint\<close> concatenates; \<^verbatim>\<open>fmt.Sprintf\<close> is a parameter.
\<close>

definition Sprint :: "string list \<Rightarrow> string" where
  "Sprint args = concat args"

definition Println :: "('m, 'a) Program \<Rightarrow> string list \<Rightarrow> 'a sent" where
  "Println p args =
     (if receiving p then Delivered (printLineMessage (Sprint args)) else Blocks)"

definition Printf ::
  "(string \<Rightarrow> string list \<Rightarrow> string) \<Rightarrow> ('m, 'a) Program \<Rightarrow> string \<Rightarrow> string list \<Rightarrow> 'a sent"
where
  "Printf Sprintf p template args =
     (if receiving p then Delivered (printLineMessage (Sprintf template args)) else Blocks)"

subsection \<open>The terminal helpers\<close>

text \<open>
  What the helpers outside \<^verbatim>\<open>tea.go\<close> return, and what other goroutines do around the
  end of \<^verbatim>\<open>Run\<close>, is given by the environment of a call: a \<^verbatim>\<open>Kill\<close> before or after
  \<^verbatim>\<open>Run\<close> reads the context; a signal that the signal goroutine takes after the event
  loop has returned; the dispatcher receiving the command of \<^verbatim>\<open>Init\<close> only then.
\<close>

record env =
  openInputTTYErr :: "error option"
  initTerminalErr :: "error option"
  initCancelReaderErr :: "error option"
  restoreTerminalStateErr :: "error option"
  cancelReaderCancels :: bool
  outputIsTTY :: bool
  killBeforeCheck :: bool
  killAfterCheck :: bool
  lateSignal :: bool
  lateInit :: bool

text \<open>
  Modelled from the spec: \<^verbatim>\<open>initTerminal\<close> is not part of \<^verbatim>\<open>tea.go\<close>. It is step (d)
  of \<^verbatim>\<open>Run\<close>, "enter raw/managed terminal mode", and may fail; alt-screen and mouse are
  toggled by other steps.
\<close>

definition initTerminal :: "env \<Rightarrow> ('m, 'a) Program \<Rightarrow> error option \<times> ('m, 'a) Program" where
  "initTerminal env p = (initTerminalErr env, emit (External ''initTerminal'') p)"

text \<open>
  Modelled from the spec: \<^verbatim>\<open>initCancelReader\<close> is not part of \<^verbatim>\<open>tea.go\<close>. It is step
  (h), "start the cancelable input subscription": on success the program has its cancel
  reader.
\<close>

definition initCancelReader :: "env \<Rightarrow> ('m, 'a) Program \<Rightarrow> error option \<times> ('m, 'a) Program" where
  "initCancelReader env p =
     (case initCancelReaderErr env of
        Some e \<Rightarrow> (Some e, emit (External ''initCancelReader'') p)
      | None \<Rightarrow> (None, emit (External ''initCancelReader'') (p\<lparr>cancelReader := True\<rparr>)))"

text \<open>
  Modelled from the spec: \<^verbatim>\<open>restoreTerminalState\<close> is not part of \<^verbatim>\<open>tea.go\<close>. It
  "restores the terminal to its pre-program state": before the program, the terminal
  shows its cursor, is not in the alt-screen and captures no mouse events.
\<close>

definition restoreTerminalState :: "env \<Rightarrow> ('m, 'a) Program \<Rightarrow> error option \<times> ('m, 'a) Program" where
  "restoreTerminalState env p =
     (restoreTerminalStateErr env,
      emit (External ''restoreTerminalState'')
        (p\<lparr>renderer := (renderer p)\<lparr>altScreenActive := False, mouseCellMotion := False,
                                       mouseAllMotion := False, cursorHidden := False\<rparr>\<rparr>))"

text \<open>\<^verbatim>\<open>shutdown(kill)\<close>; the renderer is set, and so is \<^verbatim>\<open>p.restoreOutput\<close>.\<close>

definition shutdown :: "env \<Rightarrow> bool \<Rightarrow> ('m, 'a) Program \<Rightarrow> ('m, 'a) Program" where
  "shutdown env killed p =
     emit (External ''restoreOutput'')
       (snd (restoreTerminalState env (if killed then rcall kill p else rcall stop p)))"

subsection \<open>Releasing and restoring the terminal\<close>

text \<open>A call returns a value or panics (a method called on the nil \<^verbatim>\<open>p.cancelReader\<close>).\<close>

datatype 'r called = Ret 'r | Panic

definition ReleaseTerminal ::
  "env \<Rightarrow> ('m, 'a) Program \<Rightarrow> error option called \<times> ('m, 'a) Program" where
  "ReleaseTerminal env p =
     (let p1 = p\<lparr>ignoreSignals := True\<rparr> in
      if \<not> cancelReader p1 then (Panic, p1)
      else
        let p2 = emit (External ''waitForReadLoop'') (emit (External ''cancelReader.Cancel'') p1);
            p3 = p2\<lparr>altScreenWasActive := altScreen (renderer p2)\<rparr>
        in (Ret (fst (restoreTerminalState env p3)), snd (restoreTerminalState env p3)))"

definition RestoreTerminal ::
  "env \<Rightarrow> ('m, 'a) Program \<Rightarrow> error option \<times> ('m, 'a) Program" where
  "RestoreTerminal env p =
     (let p1 = p\<lparr>ignoreSignals := False\<rparr> in
      case initTerminal env p1 of
        (Some err, p2) \<Rightarrow> (Some err, p2)
      | (None, p2) \<Rightarrow>
         (case initCancelReader env p2 of
            (Some err, p3) \<Rightarrow> (Some err, p3)
          | (None, p3) \<Rightarrow>
             (None,
              if altScreenWasActive p3 then rcall enterAltScreen p3
              else emit (Go (sendTask repaintMsg)) p3)))"

subsection \<open>Run\<close>

text \<open>The \<^verbatim>\<open>switch\<close> that opens \<^verbatim>\<open>Run\<close>: which input the program reads.\<close>

definition openInputTTY :: "env \<Rightarrow> ('m, 'a) Program \<Rightarrow> error option \<times> ('m, 'a) Program" where
  "openInputTTY env p =
     (case openInputTTYErr env of
        Some err \<Rightarrow> (Some err, emit (External ''openInputTTY'') p)
      | None \<Rightarrow> (None, emit (External ''openInputTTY'') (p\<lparr>input := fileInput True\<rparr>)))"

definition resolveInput :: "env \<Rightarrow> ('m, 'a) Program \<Rightarrow> error option \<times> ('m, 'a) Program" where
  "resolveInput env p =
     (if has (startupOptions p) withInputTTY then openInputTTY env p
      else if \<not> has (startupOptions p) withCustomInput then
        (case input p of
           fileInput False \<Rightarrow> openInputTTY env p
         | _ \<Rightarrow> (None, p))
      else (None, p))"

text \<open>"Honor program startup options."\<close>

definition honorStartupOptions :: "('m, 'a) Program \<Rightarrow> ('m, 'a) Program" where
  "honorStartupOptions p =
     (let p1 = (if startupOptions p AND withAltScreen \<noteq> 0 then rcall enterAltScreen p else p)
      in if startupOptions p AND withMouseCellMotion \<noteq> 0 then rcall enableMouseCellMotion p1
         else if startupOptions p AND withMouseAllMotion \<noteq> 0 then rcall enableMouseAllMotion p1
         else p1)"

text \<open>
  How a call of \<^verbatim>\<open>Run\<close> ends: it returns \<^verbatim>\<open>(model, err)\<close>; or it panics (and, when
  panics are caught, returns the zero values after the recovery); or it has not returned,
  because the event loop is still waiting for the next event, or is blocked, or because
  \<^verbatim>\<open>Run\<close> waits for a handler that does not finish.
\<close>

datatype 'm ran = Returns 'm "error option" | Panicked | StillLooping | Deadlocked | Joining

text \<open>
  The deferred calls, run in reverse order when \<^verbatim>\<open>Run\<close> returns or panics:
  \<^verbatim>\<open>p.cancelReader.Close()\<close> once it is registered, the recovery (\<^verbatim>\<open>p.shutdown(true)\<close> on
  a panic, unless \<^verbatim>\<open>withoutCatchPanics\<close>), \<^verbatim>\<open>f.Close()\<close> for an input that is an
  \<^verbatim>\<open>io.ReadCloser\<close>, and \<^verbatim>\<open>p.cancel()\<close>.
\<close>

definition closes :: "input \<Rightarrow> bool" where
  "closes i = (case i of nilInput \<Rightarrow> False | fileInput t \<Rightarrow> True | readerInput c \<Rightarrow> c)"

definition deferred :: "env \<Rightarrow> bool \<Rightarrow> bool \<Rightarrow> ('m, 'a) Program \<Rightarrow> ('m, 'a) Program" where
  "deferred env registered panicking p =
     (let p1 = (if registered then emit (External ''cancelReader.Close'') p else p);
          p2 = (if panicking \<and> \<not> has (startupOptions p1) withoutCatchPanics
                then shutdown env True p1 else p1);
          p3 = (if closes (input p2) then emit (External ''input.Close'') p2 else p2)
      in cancel p3)"

text \<open>
  What the goroutines do once the context is cancelled and the event loop has returned.
  The signal goroutine returns from its \<^verbatim>\<open>select\<close>, unless it takes a late signal and goes
  into its send, where it stays: nobody receives from \<^verbatim>\<open>p.msgs\<close> any more. The goroutine
  that sends the command of \<^verbatim>\<open>Init\<close> returns, the command taken by the dispatcher or not.
  The dispatcher returns from its \<^verbatim>\<open>select\<close>; inside a command that does not return it
  stays.
\<close>

definition unwind :: "env \<Rightarrow> ('m, 'a) Program \<Rightarrow> ('m, 'a) Program" where
  "unwind env p =
     (let p1 = (if signals p = waiting
                then p\<lparr>signals := (if lateSignal env \<and> \<not> ignoreSignals p then blocked else ended)\<rparr>
                else p);
          p2 = (case pendingInit p1 of
                  None \<Rightarrow> p1
                | Some cmd \<Rightarrow>
                    if lateInit env \<and> dispatching p1
                    then handleCommand cmd (p1\<lparr>pendingInit := None\<rparr>)
                    else p1\<lparr>pendingInit := None\<rparr>)
      in if dispatching p2 then p2\<lparr>dispatcher := ended\<rparr> else p2)"

text \<open>
  Modelled from the spec: \<^verbatim>\<open>listenForResize\<close>, which closes the channel of
  \<^verbatim>\<open>handleResize\<close> when the output is a terminal, is not part of \<^verbatim>\<open>tea.go\<close>; a watcher
  "must be responsive to a cancellation signal", so that channel is closed once the
  context is cancelled (\<^verbatim>\<open>handleResize\<close> itself closes it at once when the output is no
  terminal). The other channels are those of \<^verbatim>\<open>tea.go\<close>: each is closed by the deferred
  \<^verbatim>\<open>close(ch)\<close> of its goroutine, when that goroutine returns.
\<close>

definition closed :: "('m, 'a) Program \<Rightarrow> handler \<Rightarrow> bool" where
  "closed p h =
     (case h of
        signalHandler \<Rightarrow> signals p = ended
      | initHandler \<Rightarrow> pendingInit p = None
      | resizeHandler \<Rightarrow> True
      | commandHandler \<Rightarrow> dispatcher p = ended)"

text \<open>
  \<^verbatim>\<open>handlers.shutdown()\<close> waits (\<^verbatim>\<open>wg.Wait()\<close>) until every channel of the list is
  closed; it does not return while one of them stays open.
\<close>

definition handlersShutdown :: "('m, 'a) Program \<Rightarrow> ('m, 'a) Program sending" where
  "handlersShutdown p = (if list_all (closed p) (handlers p) then Sent p else Stuck p)"

text \<open>Every handler of the run finishes once the context is cancelled.\<close>

definition joins :: "env \<Rightarrow> ('m, 'a) Program \<Rightarrow> bool" where
  "joins env p = list_all (closed (unwind env p)) (handlers p)"

text \<open>
  From the return of the event loop to the return of \<^verbatim>\<open>Run\<close>: the read of the context
  and the final render (\<open>finish\<close>), then "Tear down" (\<open>teardown\<close>, from \<^verbatim>\<open>p.cancel()\<close> on,
  where a nil \<^verbatim>\<open>p.cancelReader\<close> panics). Another goroutine may call \<^verbatim>\<open>Kill\<close> before
  \<^verbatim>\<open>p.ctx.Err()\<close> is read, or after it. \<open>registered\<close> says that the input subscription
  was started (the input was not nil).
\<close>

definition teardown ::
  "env \<Rightarrow> bool \<Rightarrow> bool \<Rightarrow> 'm \<Rightarrow> error option \<Rightarrow> ('m, 'a) Program \<Rightarrow> 'm ran \<times> ('m, 'a) Program"
where
  "teardown env registered killed model err p =
     (let p1 = cancel p
      in if \<not> cancelReader p1 then (Panicked, deferred env registered True p1)
         else
           let p2 = emit (External ''cancelReader.Cancel'') p1;
               p3 = (if cancelReaderCancels env then emit (External ''waitForReadLoop'') p2 else p2)
           in case handlersShutdown (unwind env p3) of
                Stuck p4 \<Rightarrow> (Joining, p4)
              | Sent p4 \<Rightarrow>
                  (Returns model err, deferred env registered False (shutdown env killed p4)))"

definition finish ::
  "('m, 'a) Model \<Rightarrow> env \<Rightarrow> bool \<Rightarrow> 'm \<Rightarrow> error option \<Rightarrow> ('m, 'a) Program
     \<Rightarrow> 'm ran \<times> ('m, 'a) Program"
where
  "finish app env registered model err p =
     (let p1 = (if killBeforeCheck env then Kill p else p);
          killed = ctxDone p1;
          err' = (if killed then Some ErrProgramKilled else err);
          p2 = (if killed then p1
                else rcall (writeFrame (View app model)) (emit (Views model) p1));
          p3 = (if killAfterCheck env then Kill p2 else p2)
      in teardown env registered killed model err' p3)"

text \<open>
  The steps of \<^verbatim>\<open>Run\<close> before the event loop, under the comments of the source;
  \<^verbatim>\<open>handlers.add\<close> appends a channel to the list.
  "Handle signals": unless \<^verbatim>\<open>withoutSignalHandler\<close>, the goroutine of \<^verbatim>\<open>handleSignals\<close>.
\<close>

definition handleSignals :: "('m, 'a) Program \<Rightarrow> ('m, 'a) Program" where
  "handleSignals p =
     (if \<not> has (startupOptions p) withoutSignalHandler
      then emit (Go signalTask) (p\<lparr>signals := waiting, handlers := handlers p @ [signalHandler]\<rparr>)
      else p)"

text \<open>
  "Initialize the program", "Start the renderer", "Render the initial view": a non-nil
  command of \<^verbatim>\<open>Init\<close> is sent to \<^verbatim>\<open>cmds\<close> by a goroutine of its own.
\<close>

definition initialize :: "('m, 'a) Model \<Rightarrow> ('m, 'a) Program \<Rightarrow> ('m, 'a) Program" where
  "initialize app p =
     (let model = initialModel p;
          initCmd = Init app model;
          p1 = emit (Inits model) p;
          p2 = (if initCmd \<noteq> nilCmd
                then emit (Go (initCmdTask initCmd))
                       (p1\<lparr>pendingInit := Some initCmd, handlers := handlers p1 @ [initHandler]\<rparr>)
                else p1);
          p3 = rcall start p2
      in rcall (writeFrame (View app model)) (emit (Views model) p3))"

text \<open>"Subscribe to user input": only when \<^verbatim>\<open>p.input\<close> is not nil.\<close>

definition subscribe :: "env \<Rightarrow> ('m, 'a) Program \<Rightarrow> error option \<times> ('m, 'a) Program" where
  "subscribe env p = (if input p \<noteq> nilInput then initCancelReader env p else (None, p))"

text \<open>
  "Handle resize events" (goroutines only when the output is a terminal; the channel is
  added in both cases) and "Process commands": the goroutine of \<^verbatim>\<open>handleCommands\<close>
  starts to receive from \<^verbatim>\<open>cmds\<close>.
\<close>

definition handleResize :: "env \<Rightarrow> ('m, 'a) Program \<Rightarrow> ('m, 'a) Program" where
  "handleResize env p =
     (let p1 = (if outputIsTTY env then emit (Go resizeTask) p else p)
      in p1\<lparr>handlers := handlers p1 @ [resizeHandler]\<rparr>)"

definition handleCommands :: "('m, 'a) Program \<Rightarrow> ('m, 'a) Program" where
  "handleCommands p =
     emit (Go commandTask) (p\<lparr>dispatcher := waiting, handlers := handlers p @ [commandHandler]\<rparr>)"

text \<open>
  \<^verbatim>\<open>Run\<close> up to the call of the event loop, from \<^verbatim>\<open>handlers := handlers{}\<close> on. It
  fails with the error of a helper (and \<^verbatim>\<open>Run\<close> returns it, after the deferred calls),
  or the program is started; the flag says that the input subscription was started.
\<close>

datatype ('m, 'a) started =
    Failed (reason: error) (halted: "('m, 'a) Program")
  | Started (subscribed: bool) (ready: "('m, 'a) Program")

definition startup :: "('m, 'a) Model \<Rightarrow> env \<Rightarrow> ('m, 'a) Program \<Rightarrow> ('m, 'a) started" where
  "startup app env p =
     (case resolveInput env (p\<lparr>handlers := []\<rparr>) of
        (Some err, p1) \<Rightarrow> Failed err (cancel p1)
      | (None, p1) \<Rightarrow>
         (case initTerminal env (handleSignals p1) of
            (Some err, p2) \<Rightarrow> Failed err (deferred env False False p2)
          | (None, p2) \<Rightarrow>
             (case subscribe env (initialize app (honorStartupOptions p2)) of
                (Some err, p3) \<Rightarrow> Failed err (deferred env False False p3)
              | (None, p3) \<Rightarrow>
                  Started (input p3 \<noteq> nilInput) (handleCommands (handleResize env p3)))))"

text \<open>
  \<^verbatim>\<open>Run\<close>: the startup, the event loop on the initial model, the end. The model
  returned with a startup error is the initial one.
\<close>

definition Run ::
  "('m, 'a) Model \<Rightarrow> env \<Rightarrow> 'a event list \<Rightarrow> ('m, 'a) Program \<Rightarrow> 'm ran \<times> ('m, 'a) Program"
where
  "Run app env evs p =
     (case startup app env p of
        Failed err p' \<Rightarrow> (Returns (initialModel p) (Some err), p')
      | Started registered p0 \<Rightarrow>
         (case eventLoop app (initialModel p) evs (p0\<lparr>receiving := True\<rparr>) of
            (Returned model err, p1) \<Rightarrow>
              finish app env registered model err (p1\<lparr>receiving := False\<rparr>)
          | (Waiting model, p1) \<Rightarrow> (StillLooping, p1)
          | (Blocked model, p1) \<Rightarrow> (Deadlocked, p1)))"

section \<open>Notions used to state the properties\<close>

text \<open>
  The part of a trace that shows the application at work: the invocations of
  \<^verbatim>\<open>Update\<close> and \<^verbatim>\<open>View\<close> and the frames written to the renderer.
\<close>

fun shown :: "('m, 'a) action \<Rightarrow> bool" where
  "shown (Updates m msg) = True"
| "shown (Views m) = True"
| "shown (Renders (writeFrame s)) = True"
| "shown a = False"

text \<open>
  What the spec asks for a list of messages, starting from a model: one update per
  message, in order, each on the model the previous one returned, each followed by the
  render of the new model handed to the renderer.
\<close>

fun threaded :: "('m, 'a) Model \<Rightarrow> 'm \<Rightarrow> 'a Msg list \<Rightarrow> ('m, 'a) action list" where
  "threaded app model [] = []"
| "threaded app model (msg # msgs) =
     [Updates model msg,
      Views (fst (Update app model msg)),
      Renders (writeFrame (View app (fst (Update app model msg))))]
     @ threaded app (fst (Update app model msg)) msgs"

text \<open>The model after a list of messages.\<close>

definition updated :: "('m, 'a) Model \<Rightarrow> 'm \<Rightarrow> 'a Msg list \<Rightarrow> 'm" where
  "updated app model msgs = foldl (\<lambda>m msg. fst (Update app m msg)) model msgs"

text \<open>The messages that reach the update: all but the two that the type switch keeps.\<close>

fun forwarded :: "'a Msg \<Rightarrow> bool" where
  "forwarded quitMsg = False"
| "forwarded (batchMsg cmds) = False"
| "forwarded msg = True"

fun isUpdate :: "('m, 'a) action \<Rightarrow> bool" where
  "isUpdate (Updates m msg) = True"
| "isUpdate a = False"

text \<open>The commands that the event loop has sent on \<^verbatim>\<open>cmds\<close>, in the order of a trace.\<close>

fun sends :: "('m, 'a) action list \<Rightarrow> 'a Cmd list" where
  "sends [] = []"
| "sends (CmdsSend cmd # tr) = cmd # sends tr"
| "sends (a # tr) = sends tr"

text \<open>
  The effect that the spec gives each control message that is applied "directly against
  the renderer/controller" before the application sees the message: the renderer's call of
  the same name (two calls to disable the mouse), the external process of an exec, the
  background task of a sequence. The other messages have none at this point.
\<close>

fun sideEffect :: "'a Msg \<Rightarrow> ('m, 'a) action list" where
  "sideEffect clearScreenMsg = [Renders clearScreen]"
| "sideEffect enterAltScreenMsg = [Renders enterAltScreen]"
| "sideEffect exitAltScreenMsg = [Renders exitAltScreen]"
| "sideEffect enableMouseCellMotionMsg = [Renders enableMouseCellMotion]"
| "sideEffect enableMouseAllMotionMsg = [Renders enableMouseAllMotion]"
| "sideEffect disableMouseMsg = [Renders disableMouseCellMotion, Renders disableMouseAllMotion]"
| "sideEffect showCursorMsg = [Renders showCursor]"
| "sideEffect hideCursorMsg = [Renders hideCursor]"
| "sideEffect execMsg = [Exec]"
| "sideEffect (sequenceMsg cmds) = [Go (sequenceTask cmds)]"
| "sideEffect msg = []"

text \<open>The part of a trace that toggles the mouse modes.\<close>

fun mouse :: "('m, 'a) action \<Rightarrow> bool" where
  "mouse (Renders enableMouseCellMotion) = True"
| "mouse (Renders enableMouseAllMotion) = True"
| "mouse (Renders disableMouseCellMotion) = True"
| "mouse (Renders disableMouseAllMotion) = True"
| "mouse a = False"

subsection \<open>An example application\<close>

text \<open>
  The counter of the spec's example scenario: the model is a count, \<open>''inc''\<close>
  increments it, every other message is ignored; the view draws one mark per unit.
  \<open>listener\<close> counts every message but \<open>''listen''\<close>, on which it returns a command that
  does not return.
  \<open>program\<close> is a fresh program for it, with a terminal as input and the standard
  renderer; \<open>capturing\<close> is that program at work, reading its input and capturing mouse
  cell motion; \<open>fine\<close> is an environment where every helper succeeds and nobody kills.
\<close>

definition counter :: "(nat, string) Model" where
  "counter =
     \<lparr>Init = (\<lambda>m. nilCmd),
      Update = (\<lambda>m msg. if msg = appMsg ''inc'' then (Suc m, nilCmd) else (m, nilCmd)),
      View = (\<lambda>m. replicate m CHR ''x'')\<rparr>"

definition listener :: "(nat, string) Model" where
  "listener =
     \<lparr>Init = (\<lambda>m. nilCmd),
      Update = (\<lambda>m msg. if msg = appMsg ''listen'' then (m, endlessCmd) else (Suc m, nilCmd)),
      View = (\<lambda>m. replicate m CHR ''x'')\<rparr>"

definition program :: "(nat, string) Program" where
  "program =
     \<lparr>initialModel = 0, startupOptions = 0, ctxDone = False,
      renderer = \<lparr>standard = True, altScreenActive = False, mouseCellMotion = False,
                  mouseAllMotion = False, cursorHidden = False\<rparr>,
      input = fileInput True, cancelReader = False, altScreenWasActive = False,
      ignoreSignals = False, receiving = False, dispatcher = absent, signals = absent,
      pendingInit = None, handlers = [], trace = []\<rparr>"

definition capturing :: "(nat, string) Program" where
  "capturing =
     program\<lparr>cancelReader := True, renderer := (renderer program)\<lparr>mouseCellMotion := True\<rparr>\<rparr>"

definition fine :: env where
  "fine =
     \<lparr>openInputTTYErr = None, initTerminalErr = None, initCancelReaderErr = None,
      restoreTerminalStateErr = None, cancelReaderCancels = True, outputIsTTY = True,
      killBeforeCheck = False, killAfterCheck = False, lateSignal = False, lateInit = False\<rparr>"

subsection \<open>Evaluation\<close>

text \<open>The definitions that unfold a run on a concrete program.\<close>

lemmas evals = Run_def startup_def resolveInput_def openInputTTY_def has_def handleSignals_def
  initTerminal_def honorStartupOptions_def initialize_def subscribe_def initCancelReader_def
  handleResize_def handleCommands_def finish_def teardown_def deferred_def closes_def shutdown_def
  restoreTerminalState_def Kill_def cancel_def rcall_def emit_def cmdsSend_def handleCommand_def
  exec_def dispatcherExits_def initReceived_def signalArrives_def unwind_def closed_def
  handlersShutdown_def Let_def withInputTTY_def withCustomInput_def withoutSignalHandler_def
  withoutCatchPanics_def withAltScreen_def withMouseCellMotion_def withMouseAllMotion_def
  program_def capturing_def fine_def counter_def listener_def



section \<open>How the parts of a step act on the program\<close>

lemma eventLoop_forwarded:
  "forwarded msg \<Longrightarrow>
   eventLoop app model (SelectMsg msg # evs) p =
     (let p1 = special msg p;
          p2 = (if standard (renderer p1) then rcall (handleMessages msg) p1 else p1);
          p3 = emit (Updates model msg) p2
      in case cmdsSend (snd (Update app model msg)) p3 of
           Stuck p4 \<Rightarrow> (Blocked (fst (Update app model msg)), p4)
         | Sent p4 \<Rightarrow>
             eventLoop app (fst (Update app model msg)) evs
               (rcall (writeFrame (View app (fst (Update app model msg))))
                  (emit (Views (fst (Update app model msg))) p4)))"
  by (cases msg) (simp_all add: Let_def split: sending.split)

lemma rapply_standard: "standard (rapply c r) = standard r"
  by (cases c) simp_all

lemma emit_keeps:
  "dispatcher (emit a p) = dispatcher p"
  "ctxDone (emit a p) = ctxDone p"
  "receiving (emit a p) = receiving p"
  "cancelReader (emit a p) = cancelReader p"
  "renderer (emit a p) = renderer p"
  "signals (emit a p) = signals p"
  "ignoreSignals (emit a p) = ignoreSignals p"
  "pendingInit (emit a p) = pendingInit p"
  "handlers (emit a p) = handlers p"
  "trace (emit a p) = trace p @ [a]"
  by (simp_all add: emit_def)

lemma rcall_keeps:
  "dispatcher (rcall c p) = dispatcher p"
  "ctxDone (rcall c p) = ctxDone p"
  "receiving (rcall c p) = receiving p"
  "cancelReader (rcall c p) = cancelReader p"
  "standard (renderer (rcall c p)) = standard (renderer p)"
  "signals (rcall c p) = signals p"
  "ignoreSignals (rcall c p) = ignoreSignals p"
  "pendingInit (rcall c p) = pendingInit p"
  "handlers (rcall c p) = handlers p"
  "trace (rcall c p) = trace p @ [Renders c]"
  by (simp_all add: rcall_def emit_def rapply_standard)

lemma special_keeps:
  "dispatcher (special msg p) = dispatcher p"
  "ctxDone (special msg p) = ctxDone p"
  "receiving (special msg p) = receiving p"
  "cancelReader (special msg p) = cancelReader p"
  "standard (renderer (special msg p)) = standard (renderer p)"
  "signals (special msg p) = signals p"
  "ignoreSignals (special msg p) = ignoreSignals p"
  "pendingInit (special msg p) = pendingInit p"
  "handlers (special msg p) = handlers p"
  "filter shown (trace (special msg p)) = filter shown (trace p)"
  by (cases msg; simp add: rcall_def emit_def exec_def)+

lemma special_sideEffect: "trace (special msg p) = trace p @ sideEffect msg"
  by (cases msg) (simp_all add: rcall_def emit_def exec_def)

lemma sends_append: "sends (tr @ tr') = sends tr @ sends tr'"
  by (induction tr rule: sends.induct) simp_all

lemma handleCommand_keeps:
  "ctxDone (handleCommand cmd p) = ctxDone p"
  "receiving (handleCommand cmd p) = receiving p"
  "cancelReader (handleCommand cmd p) = cancelReader p"
  "renderer (handleCommand cmd p) = renderer p"
  "signals (handleCommand cmd p) = signals p"
  "ignoreSignals (handleCommand cmd p) = ignoreSignals p"
  "pendingInit (handleCommand cmd p) = pendingInit p"
  "handlers (handleCommand cmd p) = handlers p"
  "filter shown (trace (handleCommand cmd p)) = filter shown (trace p)"
  "filter mouse (trace (handleCommand cmd p)) = filter mouse (trace p)"
  "filter isUpdate (trace (handleCommand cmd p)) = filter isUpdate (trace p)"
  "sends (trace (handleCommand cmd p)) = sends (trace p)"
  "prefix (trace p) (trace (handleCommand cmd p))"
  by (cases cmd; simp add: handleCommand_def emit_def sends_append)+

lemma handleCommand_returns:
  "cmd \<noteq> endlessCmd \<Longrightarrow> dispatcher (handleCommand cmd p) = dispatcher p"
  by (cases cmd) (simp_all add: handleCommand_def emit_def)

lemma eventLoop_forward:
  assumes fw: "forwarded msg" and disp: "dispatching p"
    and ret: "snd (Update app model msg) \<noteq> endlessCmd"
  shows "\<exists>p'. eventLoop app model (SelectMsg msg # evs) p =
                 eventLoop app (fst (Update app model msg)) evs p'
           \<and> dispatching p' \<and> ctxDone p' = ctxDone p \<and> receiving p' = receiving p
           \<and> cancelReader p' = cancelReader p
           \<and> filter shown (trace p') = filter shown (trace p) @
               [Updates model msg, Views (fst (Update app model msg)),
                Renders (writeFrame (View app (fst (Update app model msg))))]"
proof -
  define p1 where "p1 = special msg p"
  define p2 where "p2 = (if standard (renderer p1) then rcall (handleMessages msg) p1 else p1)"
  define p3 where "p3 = emit (Updates model msg) p2"
  define p4 where "p4 = handleCommand (snd (Update app model msg))
                          (emit (CmdsSend (snd (Update app model msg))) p3)"
  define p5 where "p5 = rcall (writeFrame (View app (fst (Update app model msg))))
                          (emit (Views (fst (Update app model msg))) p4)"
  have k2: "dispatching p2" "ctxDone p2 = ctxDone p" "receiving p2 = receiving p"
    "cancelReader p2 = cancelReader p" "filter shown (trace p2) = filter shown (trace p)"
    using disp by (simp_all add: p2_def p1_def special_keeps rcall_keeps)
  have k3: "dispatching p3"
    using k2 by (simp add: p3_def emit_keeps)
  have send: "cmdsSend (snd (Update app model msg)) p3 = Sent p4"
    using k3 by (simp add: cmdsSend_def p4_def)
  have loop: "eventLoop app model (SelectMsg msg # evs) p =
              eventLoop app (fst (Update app model msg)) evs p5"
    unfolding eventLoop_forwarded [OF fw] Let_def
    unfolding p1_def [symmetric] p2_def [symmetric] p3_def [symmetric] send p5_def
    by simp
  have k5: "dispatching p5" "ctxDone p5 = ctxDone p" "receiving p5 = receiving p"
    "cancelReader p5 = cancelReader p"
    using k2 k3 ret
    by (simp_all add: p5_def p4_def p3_def rcall_keeps emit_keeps handleCommand_keeps
          handleCommand_returns)
  have tr: "filter shown (trace p5) = filter shown (trace p) @
               [Updates model msg, Views (fst (Update app model msg)),
                Renders (writeFrame (View app (fst (Update app model msg))))]"
    using k2(5) by (simp add: p5_def p4_def p3_def rcall_keeps emit_keeps handleCommand_keeps)
  from loop k5 tr show ?thesis by blast
qed

lemma eventLoop_forwards:
  assumes ret: "\<forall>m msg. snd (Update app m msg) \<noteq> endlessCmd"
  shows "list_all forwarded msgs \<Longrightarrow> dispatching p \<Longrightarrow>
   \<exists>p'. eventLoop app model (map SelectMsg msgs @ evs) p = eventLoop app (updated app model msgs) evs p'
      \<and> dispatching p' \<and> ctxDone p' = ctxDone p \<and> receiving p' = receiving p
      \<and> cancelReader p' = cancelReader p
      \<and> filter shown (trace p') = filter shown (trace p) @ threaded app model msgs"
proof (induction msgs arbitrary: model p)
  case Nil
  then show ?case by (intro exI [of _ p]) (simp add: updated_def)
next
  case (Cons msg msgs)
  from Cons.prems have fw: "forwarded msg" and rest: "list_all forwarded msgs" by simp_all
  have r: "snd (Update app model msg) \<noteq> endlessCmd" using ret by simp
  from eventLoop_forward [OF fw Cons.prems(2) r, of "map SelectMsg msgs @ evs"]
  obtain p1 where
    step: "eventLoop app model (SelectMsg msg # map SelectMsg msgs @ evs) p =
           eventLoop app (fst (Update app model msg)) (map SelectMsg msgs @ evs) p1"
    and keep: "dispatching p1" "ctxDone p1 = ctxDone p" "receiving p1 = receiving p"
      "cancelReader p1 = cancelReader p"
    and tr: "filter shown (trace p1) = filter shown (trace p) @
               [Updates model msg, Views (fst (Update app model msg)),
                Renders (writeFrame (View app (fst (Update app model msg))))]"
    by blast
  from Cons.IH [OF rest keep(1), of "fst (Update app model msg)"]
  obtain p2 where
    loop: "eventLoop app (fst (Update app model msg)) (map SelectMsg msgs @ evs) p1 =
           eventLoop app (updated app (fst (Update app model msg)) msgs) evs p2"
    and keep2: "dispatching p2" "ctxDone p2 = ctxDone p1" "receiving p2 = receiving p1"
      "cancelReader p2 = cancelReader p1"
    and tr2: "filter shown (trace p2) = filter shown (trace p1) @
                threaded app (fst (Update app model msg)) msgs"
    by blast
  show ?case
    using step loop keep keep2 tr tr2 by (intro exI [of _ p2]) (simp add: updated_def)
qed

lemma isUpdate_shown: "filter isUpdate (filter shown tr) = filter isUpdate tr"
proof (induction tr)
  case Nil
  show ?case by simp
next
  case (Cons a tr)
  have "isUpdate a \<Longrightarrow> shown a"
    by (cases a) simp_all
  with Cons show ?case by auto
qed

lemma threaded_updates: "length (filter isUpdate (threaded app model msgs)) = length msgs"
  by (induction msgs arbitrary: model) simp_all


section \<open>What a run keeps\<close>

lemma cmdsSend_keeps:
  "cancelReader (state (cmdsSend cmd p)) = cancelReader p"
  "receiving (state (cmdsSend cmd p)) = receiving p"
  "ctxDone (state (cmdsSend cmd p)) = ctxDone p"
  "prefix (trace p) (trace (state (cmdsSend cmd p)))"
  "filter isUpdate (trace (state (cmdsSend cmd p))) = filter isUpdate (trace p)"
  by (cases cmd; simp add: cmdsSend_def handleCommand_def emit_def)+

lemma batch_keeps:
  "cancelReader (state (batch cmds p)) = cancelReader p \<and>
   receiving (state (batch cmds p)) = receiving p \<and>
   ctxDone (state (batch cmds p)) = ctxDone p \<and>
   filter isUpdate (trace (state (batch cmds p))) = filter isUpdate (trace p)"
proof (induction cmds arbitrary: p)
  case Nil
  show ?case by simp
next
  case (Cons cmd cmds)
  show ?case
    using Cons.IH [of "state (cmdsSend cmd p)"] cmdsSend_keeps [where cmd = cmd and p = p]
    by (cases "cmdsSend cmd p") simp_all
qed

lemma batch_prefix: "prefix (trace p) (trace (state (batch cmds p)))"
proof (induction cmds arbitrary: p)
  case Nil
  show ?case by simp
next
  case (Cons cmd cmds)
  have "prefix (trace p) (trace (state (cmdsSend cmd p)))"
    by (rule cmdsSend_keeps)
  moreover have "prefix (trace (state (cmdsSend cmd p))) (trace (state (batch cmds (state (cmdsSend cmd p)))))"
    by (rule Cons.IH)
  ultimately show ?case
    by (cases "cmdsSend cmd p") auto
qed

text \<open>
  While the dispatcher receives and every command returns, the loop sends all the
  commands of a batch, in order, and the dispatcher is back in its \<^verbatim>\<open>select\<close>.
\<close>

lemma batch_sends_all:
  "dispatching p \<Longrightarrow> endlessCmd \<notin> set cmds \<Longrightarrow>
   \<exists>q. batch cmds p = Sent q \<and> dispatching q \<and> sends (trace q) = sends (trace p) @ cmds"
proof (induction cmds arbitrary: p)
  case Nil
  then show ?case by simp
next
  case (Cons cmd cmds)
  define p1 where "p1 = handleCommand cmd (emit (CmdsSend cmd) p)"
  have ne: "cmd \<noteq> endlessCmd" and rest: "endlessCmd \<notin> set cmds"
    using Cons.prems(2) by auto
  have s1: "cmdsSend cmd p = Sent p1"
    using Cons.prems(1) by (simp add: cmdsSend_def p1_def)
  have d1: "dispatching p1"
    using Cons.prems(1) ne by (simp add: p1_def handleCommand_returns emit_keeps)
  have t1: "sends (trace p1) = sends (trace p) @ [cmd]"
    by (simp add: p1_def handleCommand_keeps emit_keeps sends_append)
  from Cons.IH [OF d1 rest] obtain q where
    "batch cmds p1 = Sent q" "dispatching q" "sends (trace q) = sends (trace p1) @ cmds"
    by blast
  then show ?case
    using s1 t1 by simp
qed

lemma special_prefix: "prefix (trace p) (trace (special msg p))"
  by (simp add: special_sideEffect)

lemma not_forwarded: "\<not> forwarded msg \<Longrightarrow> msg = quitMsg \<or> (\<exists>cmds. msg = batchMsg cmds)"
  by (cases msg) simp_all

lemma initReceived_prefix: "prefix (trace p) (trace (initReceived p))"
proof (cases "pendingInit p")
  case None
  then show ?thesis by (simp add: initReceived_def)
next
  case (Some cmd)
  have "prefix (trace (p\<lparr>pendingInit := None\<rparr>)) (trace (handleCommand cmd (p\<lparr>pendingInit := None\<rparr>)))"
    by (rule handleCommand_keeps)
  then show ?thesis using Some by (simp add: initReceived_def)
qed

lemma others_keep:
  "cancelReader (dispatcherExits p) = cancelReader p"
  "receiving (dispatcherExits p) = receiving p"
  "ctxDone (dispatcherExits p) = ctxDone p"
  "trace (dispatcherExits p) = trace p"
  "cancelReader (signalArrives p) = cancelReader p"
  "receiving (signalArrives p) = receiving p"
  "ctxDone (signalArrives p) = ctxDone p"
  "trace (signalArrives p) = trace p"
  "cancelReader (initReceived p) = cancelReader p"
  "receiving (initReceived p) = receiving p"
  "ctxDone (initReceived p) = ctxDone p"
  by (simp_all add: dispatcherExits_def signalArrives_def initReceived_def handleCommand_keeps
      split: option.split)

lemma eventLoop_evolves:
  "cancelReader (snd (eventLoop app model evs p)) = cancelReader p \<and>
   receiving (snd (eventLoop app model evs p)) = receiving p \<and>
   (ctxDone p \<longrightarrow> ctxDone (snd (eventLoop app model evs p))) \<and>
   prefix (trace p) (trace (snd (eventLoop app model evs p)))"
proof (induction evs arbitrary: model p)
  case Nil
  show ?case by simp
next
  case (Cons ev evs)
  show ?case
  proof (cases ev)
    case KillCalled
    show ?thesis
      using Cons.IH [of model "Kill p"] by (simp add: KillCalled Kill_def cancel_def)
  next
    case DispatcherExits
    show ?thesis
      using Cons.IH [of model "dispatcherExits p"] by (simp add: DispatcherExits others_keep)
  next
    case InitReceived
    show ?thesis
      using Cons.IH [of model "initReceived p"] initReceived_prefix [of p]
      by (auto simp add: InitReceived others_keep intro: prefix_order.trans)
  next
    case SignalArrives
    show ?thesis
      using Cons.IH [of model "signalArrives p"] by (simp add: SignalArrives others_keep)
  next
    case SelectDone
    show ?thesis
      using Cons.IH [of model p] by (simp add: SelectDone)
  next
    case (SelectErr err)
    show ?thesis by (simp add: SelectErr)
  next
    case SelectSignal
    show ?thesis
      using Cons.IH [of model p] by (simp add: SelectSignal)
  next
    case (SelectMsg msg)
    show ?thesis
    proof (cases "forwarded msg")
      case True
      define p3 where "p3 = emit (Updates model msg)
        (if standard (renderer (special msg p)) then rcall (handleMessages msg) (special msg p)
         else special msg p)"
      have k3: "cancelReader p3 = cancelReader p" "receiving p3 = receiving p"
        "ctxDone p3 = ctxDone p" "prefix (trace p) (trace p3)"
        using special_prefix [where p = p and msg = msg]
        by (auto simp add: p3_def emit_keeps rcall_keeps special_keeps intro: prefix_order.trans)
      note k4 = cmdsSend_keeps [where cmd = "snd (Update app model msg)" and p = p3]
      show ?thesis
      proof (cases "cmdsSend (snd (Update app model msg)) p3")
        case (Stuck p4)
        then show ?thesis
          using k3 k4 True
          by (auto simp add: SelectMsg eventLoop_forwarded Let_def p3_def [symmetric]
                intro: prefix_order.trans)
      next
        case (Sent p4)
        define p5 where "p5 = rcall (writeFrame (View app (fst (Update app model msg))))
                                (emit (Views (fst (Update app model msg))) p4)"
        have k5: "cancelReader p5 = cancelReader p" "receiving p5 = receiving p"
          "ctxDone p5 = ctxDone p" "prefix (trace p) (trace p5)"
          using k3 k4 Sent
          by (auto simp add: p5_def emit_keeps rcall_keeps intro: prefix_order.trans)
        have "eventLoop app model (ev # evs) p =
              eventLoop app (fst (Update app model msg)) evs p5"
          using True Sent
          by (simp add: SelectMsg eventLoop_forwarded Let_def p3_def [symmetric] p5_def)
        then show ?thesis
          using Cons.IH [of "fst (Update app model msg)" p5] k5
          by (auto intro: prefix_order.trans)
      qed
    next
      case False
      then consider "msg = quitMsg" | cmds where "msg = batchMsg cmds"
        using not_forwarded by blast
      then show ?thesis
      proof cases
        case 1
        then show ?thesis by (simp add: SelectMsg)
      next
        case 2
        note kb = batch_keeps [where cmds = cmds and p = p] batch_prefix [where cmds = cmds and p = p]
        show ?thesis
        proof (cases "batch cmds p")
          case (Stuck p')
          then show ?thesis using kb by (simp add: SelectMsg 2)
        next
          case (Sent p')
          then show ?thesis
            using kb Cons.IH [of model p']
            by (auto simp add: SelectMsg 2 intro: prefix_order.trans)
        qed
      qed
    qed
  qed
qed

lemma eventLoop_append:
  "eventLoop app model evs p = (Waiting model', p') \<Longrightarrow>
   eventLoop app model (evs @ evs') p = eventLoop app model' evs' p'"
proof (induction evs arbitrary: model p)
  case Nil
  then show ?case by simp
next
  case (Cons ev evs)
  show ?case
  proof (cases ev)
    case KillCalled
    then show ?thesis using Cons by simp
  next
    case DispatcherExits
    then show ?thesis using Cons by simp
  next
    case InitReceived
    then show ?thesis using Cons by simp
  next
    case SignalArrives
    then show ?thesis using Cons by simp
  next
    case SelectDone
    then show ?thesis using Cons by (simp split: if_splits)
  next
    case (SelectErr err)
    then show ?thesis using Cons.prems by simp
  next
    case SelectSignal
    then show ?thesis using Cons by (simp split: if_splits)
  next
    case (SelectMsg msg)
    show ?thesis
    proof (cases "forwarded msg")
      case True
      define p3 where "p3 = emit (Updates model msg)
        (if standard (renderer (special msg p)) then rcall (handleMessages msg) (special msg p)
         else special msg p)"
      show ?thesis
      proof (cases "cmdsSend (snd (Update app model msg)) p3")
        case (Stuck p4)
        then show ?thesis
          using Cons.prems True
          by (simp add: SelectMsg eventLoop_forwarded Let_def p3_def [symmetric])
      next
        case (Sent p4)
        define p5 where "p5 = rcall (writeFrame (View app (fst (Update app model msg))))
                                (emit (Views (fst (Update app model msg))) p4)"
        have step: "eventLoop app model (ev # es) p =
              eventLoop app (fst (Update app model msg)) es p5" for es
          using True Sent
          by (simp add: SelectMsg eventLoop_forwarded Let_def p3_def [symmetric] p5_def)
        have "eventLoop app (fst (Update app model msg)) evs p5 = (Waiting model', p')"
          using Cons.prems by (simp only: step)
        from Cons.IH [OF this] show ?thesis
          by (simp only: step append_Cons)
      qed
    next
      case False
      then consider "msg = quitMsg" | cmds where "msg = batchMsg cmds"
        using not_forwarded by blast
      then show ?thesis
      proof cases
        case 1
        then show ?thesis using Cons.prems by (simp add: SelectMsg)
      next
        case 2
        show ?thesis
        proof (cases "batch cmds p")
          case (Stuck p1)
          then show ?thesis using Cons.prems by (simp add: SelectMsg 2)
        next
          case (Sent p1)
          then show ?thesis using Cons by (simp add: SelectMsg 2)
        qed
      qed
    qed
  qed
qed

lemma forwarded_prefix:
  assumes fw: "forwarded msg"
  shows "prefix (trace (special msg p)
                 @ (if standard (renderer p) then [Renders (handleMessages msg)] else [])
                 @ [Updates model msg])
                (trace (snd (eventLoop app model (SelectMsg msg # evs) p)))"
proof -
  define p3 where "p3 = emit (Updates model msg)
    (if standard (renderer (special msg p)) then rcall (handleMessages msg) (special msg p)
     else special msg p)"
  have t3: "trace p3 = trace (special msg p)
                 @ (if standard (renderer p) then [Renders (handleMessages msg)] else [])
                 @ [Updates model msg]"
    by (simp add: p3_def emit_keeps rcall_keeps special_keeps)
  note k4 = cmdsSend_keeps(4) [where cmd = "snd (Update app model msg)" and p = p3]
  have "prefix (trace p3) (trace (snd (eventLoop app model (SelectMsg msg # evs) p)))"
  proof (cases "cmdsSend (snd (Update app model msg)) p3")
    case (Stuck p4)
    then show ?thesis
      using k4 fw by (simp add: eventLoop_forwarded Let_def p3_def [symmetric])
  next
    case (Sent p4)
    define p5 where "p5 = rcall (writeFrame (View app (fst (Update app model msg))))
                            (emit (Views (fst (Update app model msg))) p4)"
    have "prefix (trace p3) (trace p5)"
      using k4 Sent by (auto simp add: p5_def emit_keeps rcall_keeps intro: prefix_order.trans)
    moreover have "prefix (trace p5) (trace (snd (eventLoop app (fst (Update app model msg)) evs p5)))"
      using eventLoop_evolves [of app "fst (Update app model msg)" evs p5] by simp
    moreover have "eventLoop app model (SelectMsg msg # evs) p =
          eventLoop app (fst (Update app model msg)) evs p5"
      using fw Sent by (simp add: eventLoop_forwarded Let_def p3_def [symmetric] p5_def)
    ultimately show ?thesis
      by (auto intro: prefix_order.trans)
  qed
  then show ?thesis
    by (simp add: t3)
qed


section \<open>The start and the end of a run\<close>

lemma shutdown_keeps:
  "ctxDone (shutdown env k p) = ctxDone p"
  "receiving (shutdown env k p) = receiving p"
  "cancelReader (shutdown env k p) = cancelReader p"
  "input (shutdown env k p) = input p"
  "startupOptions (shutdown env k p) = startupOptions p"
  "filter shown (trace (shutdown env k p)) = filter shown (trace p)"
  by (simp_all add: shutdown_def restoreTerminalState_def rcall_def emit_def)

lemma deferred_keeps:
  "ctxDone (deferred env r k p)"
  "receiving (deferred env r k p) = receiving p"
  "filter shown (trace (deferred env r k p)) = filter shown (trace p)"
  by (simp_all add: deferred_def Let_def cancel_def emit_def shutdown_keeps)

lemma unwind_keeps:
  "ctxDone (unwind env p) = ctxDone p"
  "receiving (unwind env p) = receiving p"
  "cancelReader (unwind env p) = cancelReader p"
  "handlers (unwind env p) = handlers p"
  "filter shown (trace (unwind env p)) = filter shown (trace p)"
  by (simp_all add: unwind_def Let_def handleCommand_keeps split: option.split)

lemma unwind_same:
  assumes "signals p = signals q" "ignoreSignals p = ignoreSignals q"
    "pendingInit p = pendingInit q" "dispatcher p = dispatcher q"
  shows "signals (unwind env p) = signals (unwind env q)"
    "pendingInit (unwind env p) = pendingInit (unwind env q)"
    "dispatcher (unwind env p) = dispatcher (unwind env q)"
  using assms
  by (auto simp add: unwind_def Let_def handleCommand_def emit_def split: option.split Cmd.split)

lemma joins_same:
  assumes "signals p = signals q" "ignoreSignals p = ignoreSignals q"
    "pendingInit p = pendingInit q" "dispatcher p = dispatcher q" "handlers p = handlers q"
  shows "joins env p = joins env q"
proof -
  have "closed (unwind env p) h = closed (unwind env q) h" for h
    using unwind_same [OF assms(1-4), of env] by (cases h) (simp_all add: closed_def)
  then show ?thesis
    using assms(5) by (simp add: joins_def cong: list.pred_cong)
qed

lemma teardown_joins:
  assumes "cancelReader p" "joins env p"
  shows "fst (teardown env r k m e p) = Returns m e"
    and "filter shown (trace (snd (teardown env r k m e p))) = filter shown (trace p)"
proof -
  define p3 where "p3 = (if cancelReaderCancels env
      then emit (External ''waitForReadLoop'') (emit (External ''cancelReader.Cancel'') (cancel p))
      else emit (External ''cancelReader.Cancel'') (cancel p))"
  have "joins env p3 = joins env p"
    by (rule joins_same) (simp_all add: p3_def cancel_def emit_keeps)
  then have "list_all (closed (unwind env p3)) (handlers (unwind env p3))"
    using assms(2) by (simp add: joins_def unwind_keeps)
  then have sh: "handlersShutdown (unwind env p3) = Sent (unwind env p3)"
    by (simp add: handlersShutdown_def)
  have c: "cancelReader (cancel p)"
    using assms(1) by (simp add: cancel_def)
  have td: "teardown env r k m e p =
      (Returns m e, deferred env r False (shutdown env k (unwind env p3)))"
    unfolding teardown_def Let_def using c sh by (simp add: p3_def)
  show "fst (teardown env r k m e p) = Returns m e"
    by (simp add: td)
  show "filter shown (trace (snd (teardown env r k m e p))) = filter shown (trace p)"
    by (simp add: td deferred_keeps shutdown_keeps unwind_keeps p3_def cancel_def emit_keeps)
qed

lemma handlersShutdown_state: "state (handlersShutdown p) = p"
  by (simp add: handlersShutdown_def)

lemma teardown_done:
  "ctxDone (snd (teardown env r k m e p))"
  "receiving (snd (teardown env r k m e p)) = receiving p"
proof -
  define p3 where "p3 = (if cancelReaderCancels env
      then emit (External ''waitForReadLoop'') (emit (External ''cancelReader.Cancel'') (cancel p))
      else emit (External ''cancelReader.Cancel'') (cancel p))"
  have k3: "ctxDone p3" "receiving p3 = receiving p"
    by (simp_all add: p3_def cancel_def emit_keeps)
  have td: "teardown env r k m e p =
      (if \<not> cancelReader (cancel p) then (Panicked, deferred env r True (cancel p))
       else case handlersShutdown (unwind env p3) of
              Stuck p4 \<Rightarrow> (Joining, p4)
            | Sent p4 \<Rightarrow> (Returns m e, deferred env r False (shutdown env k p4)))"
    unfolding teardown_def Let_def by (simp add: p3_def)
  show "ctxDone (snd (teardown env r k m e p))"
    using k3 handlersShutdown_state [of "unwind env p3"]
    by (cases "handlersShutdown (unwind env p3)")
       (simp_all add: td deferred_keeps unwind_keeps)
  show "receiving (snd (teardown env r k m e p)) = receiving p"
    using k3 handlersShutdown_state [of "unwind env p3"]
    by (cases "handlersShutdown (unwind env p3)")
       (simp_all add: td deferred_keeps shutdown_keeps unwind_keeps cancel_def)
qed

lemma finish_graceful:
  assumes "\<not> killBeforeCheck env" "\<not> ctxDone q" "cancelReader q" "joins env q"
  shows "fst (finish app env r m err q) = Returns m err"
    and "filter shown (trace (snd (finish app env r m err q))) =
           filter shown (trace q) @ [Views m, Renders (writeFrame (View app m))]"
proof -
  define q3 where "q3 = (if killAfterCheck env
      then Kill (rcall (writeFrame (View app m)) (emit (Views m) q))
      else rcall (writeFrame (View app m)) (emit (Views m) q))"
  have fin: "finish app env r m err q = teardown env r False m err q3"
    using assms(1,2) by (simp add: finish_def Let_def q3_def)
  have "joins env q3 = joins env q"
    by (rule joins_same) (simp_all add: q3_def Kill_def cancel_def rcall_keeps emit_keeps)
  then have j: "joins env q3" using assms(4) by simp
  have c: "cancelReader q3"
    using assms(3) by (simp add: q3_def Kill_def cancel_def rcall_keeps emit_keeps)
  show "fst (finish app env r m err q) = Returns m err"
    by (simp add: fin teardown_joins [OF c j])
  show "filter shown (trace (snd (finish app env r m err q))) =
           filter shown (trace q) @ [Views m, Renders (writeFrame (View app m))]"
  proof -
    have "filter shown (trace q3) =
        filter shown (trace q) @ [Views m, Renders (writeFrame (View app m))]"
      by (simp add: q3_def Kill_def cancel_def rcall_def emit_def)
    then show ?thesis
      unfolding fin teardown_joins(2) [OF c j] .
  qed
qed

lemma finish_killed:
  assumes "ctxDone q \<or> killBeforeCheck env" "cancelReader q" "joins env q"
  shows "fst (finish app env r m err q) = Returns m (Some ErrProgramKilled)"
    and "filter shown (trace (snd (finish app env r m err q))) = filter shown (trace q)"
proof -
  define q3 where "q3 = (if killAfterCheck env
      then Kill (if killBeforeCheck env then Kill q else q)
      else (if killBeforeCheck env then Kill q else q))"
  have fin: "finish app env r m err q = teardown env r True m (Some ErrProgramKilled) q3"
    using assms(1) by (auto simp add: finish_def Let_def q3_def Kill_def cancel_def)
  have "joins env q3 = joins env q"
    by (rule joins_same) (simp_all add: q3_def Kill_def cancel_def)
  then have j: "joins env q3" using assms(3) by simp
  have c: "cancelReader q3"
    using assms(2) by (simp add: q3_def Kill_def cancel_def)
  show "fst (finish app env r m err q) = Returns m (Some ErrProgramKilled)"
    by (simp add: fin teardown_joins [OF c j])
  show "filter shown (trace (snd (finish app env r m err q))) = filter shown (trace q)"
  proof -
    have "filter shown (trace q3) = filter shown (trace q)"
      by (simp add: q3_def Kill_def cancel_def)
    then show ?thesis
      unfolding fin teardown_joins(2) [OF c j] .
  qed
qed

lemma finish_done:
  "ctxDone (snd (finish app env r m err q))"
  "receiving (snd (finish app env r m err q)) = receiving q"
  by (simp_all add: finish_def Let_def teardown_done Kill_def cancel_def rcall_keeps emit_keeps)

lemma resolveInput_eq:
  assumes "resolveInput env p = (e, p')"
  shows "ctxDone p' = ctxDone p" "receiving p' = receiving p" "dispatcher p' = dispatcher p"
    "initialModel p' = initialModel p" "startupOptions p' = startupOptions p"
    "renderer p' = renderer p" "trace p' = trace p \<or> trace p' = trace p @ [External ''openInputTTY'']"
    "cancelReader p' = cancelReader p"
  using assms
  by (auto simp add: resolveInput_def openInputTTY_def emit_def
      split: if_splits option.splits input.splits bool.splits)

lemma initTerminal_eq:
  assumes "initTerminal env p = (e, p')"
  shows "ctxDone p' = ctxDone p" "receiving p' = receiving p" "dispatcher p' = dispatcher p"
    "initialModel p' = initialModel p" "startupOptions p' = startupOptions p"
    "renderer p' = renderer p" "input p' = input p" "cancelReader p' = cancelReader p"
    "trace p' = trace p @ [External ''initTerminal'']"
  using assms by (auto simp add: initTerminal_def emit_def)

lemma initCancelReader_eq:
  assumes "initCancelReader env p = (e, p')"
  shows "ctxDone p' = ctxDone p" "receiving p' = receiving p" "dispatcher p' = dispatcher p"
    "initialModel p' = initialModel p" "startupOptions p' = startupOptions p"
    "renderer p' = renderer p" "input p' = input p" "e = None \<longrightarrow> cancelReader p'"
    "altScreenWasActive p' = altScreenWasActive p"
    "trace p' = trace p @ [External ''initCancelReader'']"
  using assms by (auto simp add: initCancelReader_def emit_def split: option.splits)

lemma subscribe_eq:
  assumes "subscribe env p = (e, p')"
  shows "ctxDone p' = ctxDone p" "receiving p' = receiving p" "dispatcher p' = dispatcher p"
    "initialModel p' = initialModel p" "startupOptions p' = startupOptions p"
    "renderer p' = renderer p" "input p' = input p"
    "e = None \<and> input p \<noteq> nilInput \<longrightarrow> cancelReader p'"
    "filter shown (trace p') = filter shown (trace p)"
    "input p = nilInput \<longrightarrow> cancelReader p' = cancelReader p"
  using assms initCancelReader_eq [of env p e p']
  by (auto simp add: subscribe_def split: if_splits)

lemma honorStartupOptions_keeps:
  "ctxDone (honorStartupOptions p) = ctxDone p"
  "receiving (honorStartupOptions p) = receiving p"
  "initialModel (honorStartupOptions p) = initialModel p"
  "input (honorStartupOptions p) = input p"
  "cancelReader (honorStartupOptions p) = cancelReader p"
  "filter shown (trace (honorStartupOptions p)) = filter shown (trace p)"
  by (simp_all add: honorStartupOptions_def Let_def rcall_def emit_def)

lemma initialize_keeps:
  "ctxDone (initialize app p) = ctxDone p"
  "receiving (initialize app p) = receiving p"
  "initialModel (initialize app p) = initialModel p"
  "input (initialize app p) = input p"
  "cancelReader (initialize app p) = cancelReader p"
  "filter shown (trace (initialize app p)) = filter shown (trace p) @
     [Views (initialModel p), Renders (writeFrame (View app (initialModel p)))]"
  by (simp_all add: initialize_def Let_def rcall_def emit_def)

lemma handleSignals_keeps:
  "ctxDone (handleSignals p) = ctxDone p"
  "receiving (handleSignals p) = receiving p"
  "initialModel (handleSignals p) = initialModel p"
  "cancelReader (handleSignals p) = cancelReader p"
  "filter shown (trace (handleSignals p)) = filter shown (trace p)"
  by (simp_all add: handleSignals_def emit_def)

lemma handlers_keeps:
  "ctxDone (handleCommands (handleResize env p)) = ctxDone p"
  "receiving (handleCommands (handleResize env p)) = receiving p"
  "initialModel (handleCommands (handleResize env p)) = initialModel p"
  "cancelReader (handleCommands (handleResize env p)) = cancelReader p"
  "dispatching (handleCommands (handleResize env p))"
  "filter shown (trace (handleCommands (handleResize env p))) = filter shown (trace p)"
  by (simp_all add: handleCommands_def handleResize_def Let_def emit_def)

lemma startup_Started:
  assumes st: "startup app env p = Started r p0"
  shows "dispatching p0" "ctxDone p0 = ctxDone p" "receiving p0 = receiving p"
    "r \<longrightarrow> cancelReader p0" "initialModel p0 = initialModel p"
    "filter shown (trace p0) = filter shown (trace p) @
       [Views (initialModel p), Renders (writeFrame (View app (initialModel p)))]"
    "\<not> r \<longrightarrow> cancelReader p0 = cancelReader p"
proof -
  from st obtain p1 p2 p3 where
    r1: "resolveInput env (p\<lparr>handlers := []\<rparr>) = (None, p1)" and
    r2: "initTerminal env (handleSignals p1) = (None, p2)" and
    r3: "subscribe env (initialize app (honorStartupOptions p2)) = (None, p3)" and
    r: "r = (input p3 \<noteq> nilInput)" and
    p0: "p0 = handleCommands (handleResize env p3)"
    by (auto simp add: startup_def split: prod.splits option.splits)
  note k1 = resolveInput_eq [OF r1]
  note k2 = initTerminal_eq [OF r2]
  note k3 = subscribe_eq [OF r3]
  show "dispatching p0" by (simp add: p0 handlers_keeps)
  show "ctxDone p0 = ctxDone p"
    by (simp add: p0 handlers_keeps k3 initialize_keeps honorStartupOptions_keeps k2
          handleSignals_keeps k1)
  show "receiving p0 = receiving p"
    by (simp add: p0 handlers_keeps k3 initialize_keeps honorStartupOptions_keeps k2
          handleSignals_keeps k1)
  show "initialModel p0 = initialModel p"
    by (simp add: p0 handlers_keeps k3 initialize_keeps honorStartupOptions_keeps k2
          handleSignals_keeps k1)
  show "r \<longrightarrow> cancelReader p0"
    using k3(7,8) by (simp add: p0 r handlers_keeps)
  show "\<not> r \<longrightarrow> cancelReader p0 = cancelReader p"
    using k3(7,10)
    by (simp add: p0 r handlers_keeps initialize_keeps honorStartupOptions_keeps k2
          handleSignals_keeps k1)
  have "filter shown (trace p1) = filter shown (trace p)"
    using k1(7) by auto
  then show "filter shown (trace p0) = filter shown (trace p) @
       [Views (initialModel p), Renders (writeFrame (View app (initialModel p)))]"
    by (simp add: p0 handlers_keeps k3 initialize_keeps honorStartupOptions_keeps k2
          handleSignals_keeps k1)
qed

lemma startup_Failed:
  assumes st: "startup app env p = Failed err p'"
  shows "ctxDone p'"
  using st
  by (auto simp add: startup_def deferred_keeps cancel_def split: prod.splits option.splits)

lemma startup_Failed_receiving:
  assumes st: "startup app env p = Failed err p'"
  shows "receiving p' = receiving p"
proof -
  consider
    p1 where "resolveInput env (p\<lparr>handlers := []\<rparr>) = (Some err, p1)" "p' = cancel p1"
  | p1 p2 where "resolveInput env (p\<lparr>handlers := []\<rparr>) = (None, p1)"
      "initTerminal env (handleSignals p1) = (Some err, p2)" "p' = deferred env False False p2"
  | p1 p2 p3 where "resolveInput env (p\<lparr>handlers := []\<rparr>) = (None, p1)"
      "initTerminal env (handleSignals p1) = (None, p2)"
      "subscribe env (initialize app (honorStartupOptions p2)) = (Some err, p3)"
      "p' = deferred env False False p3"
    using st by (auto simp add: startup_def split: prod.splits option.splits)
  then show ?thesis
  proof cases
    case 1
    then show ?thesis using resolveInput_eq(2) [OF 1(1)] by (simp add: cancel_def)
  next
    case 2
    then show ?thesis
      using resolveInput_eq(2) [OF 2(1)] initTerminal_eq(2) [OF 2(2)]
      by (simp add: deferred_keeps handleSignals_keeps)
  next
    case 3
    then show ?thesis
      using resolveInput_eq(2) [OF 3(1)] initTerminal_eq(2) [OF 3(2)] subscribe_eq(2) [OF 3(3)]
      by (simp add: deferred_keeps handleSignals_keeps initialize_keeps honorStartupOptions_keeps)
  qed
qed

lemma Run_returned:
  assumes ret: "fst (Run app env evs p) = Returns model err"
  shows "ctxDone (snd (Run app env evs p))"
    and "\<not> receiving p \<Longrightarrow> \<not> receiving (snd (Run app env evs p))"
proof -
  show "ctxDone (snd (Run app env evs p))"
  proof (cases "startup app env p")
    case (Failed e p')
    then show ?thesis using startup_Failed [OF Failed] by (simp add: Run_def)
  next
    case (Started r p0)
    obtain res p1 where loop: "eventLoop app (initialModel p) evs (p0\<lparr>receiving := True\<rparr>) = (res, p1)"
      by (cases "eventLoop app (initialModel p) evs (p0\<lparr>receiving := True\<rparr>)")
    show ?thesis
      using ret by (cases res) (simp_all add: Run_def Started loop finish_done)
  qed
  show "\<not> receiving (snd (Run app env evs p))" if fresh: "\<not> receiving p"
  proof (cases "startup app env p")
    case (Failed e p')
    then show ?thesis using startup_Failed_receiving [OF Failed] fresh by (simp add: Run_def)
  next
    case (Started r p0)
    obtain res p1 where loop: "eventLoop app (initialModel p) evs (p0\<lparr>receiving := True\<rparr>) = (res, p1)"
      by (cases "eventLoop app (initialModel p) evs (p0\<lparr>receiving := True\<rparr>)")
    show ?thesis
      using ret by (cases res) (simp_all add: Run_def Started loop finish_done)
  qed
qed

section \<open>The mouse modes at startup\<close>

lemma resolveInput_mouse:
  assumes "resolveInput env p = (e, p')"
  shows "filter mouse (trace p') = filter mouse (trace p)"
  using resolveInput_eq(7) [OF assms] by auto

lemma subscribe_mouse:
  assumes "subscribe env p = (e, p')"
  shows "filter mouse (trace p') = filter mouse (trace p)"
proof (cases "input p \<noteq> nilInput")
  case True
  then have "initCancelReader env p = (e, p')" using assms by (simp add: subscribe_def)
  from initCancelReader_eq(10) [OF this] show ?thesis by simp
next
  case False
  then show ?thesis using assms by (simp add: subscribe_def)
qed

lemma steps_mouse:
  "filter mouse (trace (handleSignals p)) = filter mouse (trace p)"
  "filter mouse (trace (initialize app p)) = filter mouse (trace p)"
  "filter mouse (trace (handleCommands (handleResize env p))) = filter mouse (trace p)"
  "filter mouse (trace (deferred env r False p)) = filter mouse (trace p)"
  "filter mouse (trace (cancel p)) = filter mouse (trace p)"
  "startupOptions (handleSignals p) = startupOptions p"
  by (simp_all add: handleSignals_def initialize_def handleCommands_def handleResize_def
        deferred_def cancel_def rcall_def emit_def Let_def)

lemma honorStartupOptions_mouse:
  assumes "has (startupOptions p) withMouseCellMotion"
  shows "filter mouse (trace (honorStartupOptions p))
           = filter mouse (trace p) @ [Renders enableMouseCellMotion]"
    and "mouseCellMotion (renderer (honorStartupOptions p))"
    and "mouseAllMotion (renderer (honorStartupOptions p)) = mouseAllMotion (renderer p)"
  using assms by (simp_all add: honorStartupOptions_def has_def rcall_def emit_def Let_def)

lemma startup_mouse:
  assumes cell: "has (startupOptions p) withMouseCellMotion"
  shows "case startup app env p of
           Failed err p' \<Rightarrow>
             filter mouse (trace p') = filter mouse (trace p) \<or>
             filter mouse (trace p') = filter mouse (trace p) @ [Renders enableMouseCellMotion]
         | Started r p0 \<Rightarrow>
             filter mouse (trace p0) = filter mouse (trace p) @ [Renders enableMouseCellMotion]"
proof -
  obtain e1 p1 where r1: "resolveInput env (p\<lparr>handlers := []\<rparr>) = (e1, p1)"
    by (cases "resolveInput env (p\<lparr>handlers := []\<rparr>)")
  obtain e2 p2 where r2: "initTerminal env (handleSignals p1) = (e2, p2)"
    by (cases "initTerminal env (handleSignals p1)")
  obtain e3 p3 where r3: "subscribe env (initialize app (honorStartupOptions p2)) = (e3, p3)"
    by (cases "subscribe env (initialize app (honorStartupOptions p2))")
  have m1: "filter mouse (trace p1) = filter mouse (trace p)"
    using resolveInput_mouse [OF r1] by simp
  have m2: "filter mouse (trace p2) = filter mouse (trace p)"
    using initTerminal_eq(9) [OF r2] m1 by (simp add: steps_mouse)
  have "startupOptions p2 = startupOptions p"
    using initTerminal_eq(5) [OF r2] resolveInput_eq(5) [OF r1] by (simp add: steps_mouse)
  then have "has (startupOptions p2) withMouseCellMotion"
    using cell by simp
  then have m3: "filter mouse (trace p3) = filter mouse (trace p) @ [Renders enableMouseCellMotion]"
    using subscribe_mouse [OF r3] m2 by (simp add: steps_mouse honorStartupOptions_mouse)
  show ?thesis
    using m1 m2 m3
    by (simp add: startup_def r1 r2 r3 steps_mouse split: option.split)
qed


section \<open>The end of a run without an input reader, and with a handler that stays\<close>

lemma teardown_panics:
  assumes "\<not> cancelReader p"
  shows "teardown env r k m e p = (Panicked, deferred env r True (cancel p))"
  using assms by (simp add: teardown_def Let_def cancel_def)

lemma teardown_waits:
  assumes "cancelReader p" "\<not> joins env p"
  shows "fst (teardown env r k m e p) = Joining"
proof -
  define p3 where "p3 = (if cancelReaderCancels env
      then emit (External ''waitForReadLoop'') (emit (External ''cancelReader.Cancel'') (cancel p))
      else emit (External ''cancelReader.Cancel'') (cancel p))"
  have "joins env p3 = joins env p"
    by (rule joins_same) (simp_all add: p3_def cancel_def emit_keeps)
  then have "\<not> list_all (closed (unwind env p3)) (handlers (unwind env p3))"
    using assms(2) by (simp add: joins_def unwind_keeps)
  then have sh: "handlersShutdown (unwind env p3) = Stuck (unwind env p3)"
    by (simp add: handlersShutdown_def)
  have c: "cancelReader (cancel p)"
    using assms(1) by (simp add: cancel_def)
  show ?thesis
    unfolding teardown_def Let_def using c sh by (simp add: p3_def)
qed

lemma finish_panics:
  assumes "\<not> cancelReader q"
  shows "fst (finish app env r m err q) = Panicked"
    and "\<not> killBeforeCheck env \<Longrightarrow> \<not> ctxDone q \<Longrightarrow>
         filter shown (trace (snd (finish app env r m err q))) =
           filter shown (trace q) @ [Views m, Renders (writeFrame (View app m))]"
proof -
  define q3 where "q3 = (let p1 = (if killBeforeCheck env then Kill q else q);
      p2 = (if ctxDone p1 then p1 else rcall (writeFrame (View app m)) (emit (Views m) p1))
    in if killAfterCheck env then Kill p2 else p2)"
  have c: "\<not> cancelReader q3"
    using assms by (simp add: q3_def Let_def Kill_def cancel_def rcall_keeps emit_keeps)
  have fin: "finish app env r m err q =
      teardown env r (ctxDone (if killBeforeCheck env then Kill q else q)) m
        (if ctxDone (if killBeforeCheck env then Kill q else q) then Some ErrProgramKilled else err) q3"
    by (simp add: finish_def Let_def q3_def)
  show "fst (finish app env r m err q) = Panicked"
    unfolding fin teardown_panics [OF c] by simp
  show "filter shown (trace (snd (finish app env r m err q))) =
           filter shown (trace q) @ [Views m, Renders (writeFrame (View app m))]"
    if "\<not> killBeforeCheck env" "\<not> ctxDone q"
  proof -
    have "filter shown (trace q3) =
        filter shown (trace q) @ [Views m, Renders (writeFrame (View app m))]"
      using that by (simp add: q3_def Let_def Kill_def cancel_def rcall_def emit_def)
    then show ?thesis
      unfolding fin teardown_panics [OF c] by (simp add: deferred_keeps cancel_def)
  qed
qed

section \<open>The event loop threads the model through the updates\<close>

text \<open>
  While the dispatcher receives, and when no command that \<^verbatim>\<open>Update\<close> returns runs for
  ever, the loop threads the model: for N application messages it invokes \<^verbatim>\<open>Update\<close>
  exactly N times, in the order of the messages, each time on the model the previous
  invocation returned, each invocation followed by the render of the new model, whose
  text is written to the renderer. The loop then waits for the next event, holding the
  last model.
\<close>

lemma eventLoop_threads:
  assumes "dispatching p" and "\<forall>m msg. snd (Update app m msg) \<noteq> endlessCmd"
  shows "fst (eventLoop app model (map (\<lambda>x. SelectMsg (appMsg x)) xs) p)
           = Waiting (updated app model (map appMsg xs))
       \<and> filter shown (trace (snd (eventLoop app model (map (\<lambda>x. SelectMsg (appMsg x)) xs) p)))
           = filter shown (trace p) @ threaded app model (map appMsg xs)
       \<and> length (filter isUpdate
                   (trace (snd (eventLoop app model (map (\<lambda>x. SelectMsg (appMsg x)) xs) p))))
           = length (filter isUpdate (trace p)) + length xs"
proof -
  have fw: "list_all forwarded (map appMsg xs)"
    by (induction xs) simp_all
  from eventLoop_forwards [OF assms(2) fw assms(1), of model "[]"]
  obtain p' where
    loop: "eventLoop app model (map SelectMsg (map appMsg xs)) p =
           eventLoop app (updated app model (map appMsg xs)) [] p'"
    and tr: "filter shown (trace p') = filter shown (trace p) @ threaded app model (map appMsg xs)"
    by auto
  have evs: "map (\<lambda>x. SelectMsg (appMsg x)) xs = map SelectMsg (map appMsg xs)"
    by simp
  have res: "eventLoop app model (map (\<lambda>x. SelectMsg (appMsg x)) xs) p =
             (Waiting (updated app model (map appMsg xs)), p')"
    unfolding evs loop by simp
  have "length (filter isUpdate (trace p')) = length (filter isUpdate (filter shown (trace p')))"
    by (simp only: isUpdate_shown)
  also have "\<dots> = length (filter isUpdate (filter shown (trace p)))
                   + length (filter isUpdate (threaded app model (map appMsg xs)))"
    by (simp only: tr filter_append length_append)
  also have "\<dots> = length (filter isUpdate (trace p)) + length xs"
    by (simp only: isUpdate_shown threaded_updates length_map)
  finally show ?thesis
    using tr by (simp only: res fst_conv snd_conv simp_thms)
qed

lemma eventLoop_threads_counter:
  "fst (eventLoop counter 0 (map (\<lambda>x. SelectMsg (appMsg x)) [''inc'', ''inc'', ''noop'', ''inc''])
            (program\<lparr>dispatcher := waiting\<rparr>)) = Waiting 3
   \<and> filter shown (trace (snd (eventLoop counter 0
            (map (\<lambda>x. SelectMsg (appMsg x)) [''inc'', ''inc'', ''noop'', ''inc''])
            (program\<lparr>dispatcher := waiting\<rparr>))))
       = [Updates 0 (appMsg ''inc''), Views 1, Renders (writeFrame ''x''),
          Updates 1 (appMsg ''inc''), Views 2, Renders (writeFrame ''xx''),
          Updates 2 (appMsg ''noop''), Views 2, Renders (writeFrame ''xx''),
          Updates 2 (appMsg ''inc''), Views 3, Renders (writeFrame ''xxx'')]"
  by (simp add: evals numeral_eq_Suc)

text \<open>
  A command runs inside the dispatcher (\<^verbatim>\<open>go p.Send(cmd())\<close> calls \<^verbatim>\<open>cmd\<close> before it
  starts the goroutine). After a command that does not return, the next message gets its
  update, and the loop stays in \<^verbatim>\<open>cmds <- cmd\<close>: that update is never rendered and no
  further message is received.
\<close>

lemma eventLoop_behind_endless_command:
  "fst (eventLoop listener 0 [SelectMsg (appMsg ''listen''), SelectMsg (appMsg ''key''),
          SelectMsg (appMsg ''key'')] (program\<lparr>dispatcher := waiting\<rparr>)) = Blocked 1
   \<and> filter shown (trace (snd (eventLoop listener 0 [SelectMsg (appMsg ''listen''),
          SelectMsg (appMsg ''key''), SelectMsg (appMsg ''key'')] (program\<lparr>dispatcher := waiting\<rparr>))))
       = [Updates 0 (appMsg ''listen''), Views 0, Renders (writeFrame []),
          Updates 0 (appMsg ''key'')]"
  by (simp add: evals)

text \<open>
  C1 does not hold in every run of the loop. After a \<^verbatim>\<open>Kill\<close> the loop is still running
  until its \<^verbatim>\<open>select\<close> takes \<^verbatim>\<open>p.ctx.Done()\<close>, and it may take a message first. When the
  dispatcher has returned in between (or was never there), \<^verbatim>\<open>Update\<close> is invoked on that
  message and the loop then stays in its send \<^verbatim>\<open>cmds <- cmd\<close>, which has no
  \<^verbatim>\<open>p.ctx.Done()\<close> case: the new model is never rendered, nothing is written to the
  renderer, and the messages that follow are never received, whatever the program, the
  application, the model and the message are.
\<close>

theorem eventLoop_blocks_after_kill:
  "fst (eventLoop app model (KillCalled # DispatcherExits # SelectMsg (appMsg x) # evs) p)
     = Blocked (fst (Update app model (appMsg x)))
   \<and> filter shown
        (trace (snd (eventLoop app model (KillCalled # DispatcherExits # SelectMsg (appMsg x) # evs) p)))
     = filter shown (trace p) @ [Updates model (appMsg x)]"
proof -
  define q where "q = dispatcherExits (Kill p)"
  have nd: "\<not> dispatching q"
    by (simp add: q_def dispatcherExits_def Kill_def cancel_def)
  have tr: "trace q = trace p"
    by (simp add: q_def dispatcherExits_def Kill_def cancel_def)
  have "eventLoop app model (SelectMsg (appMsg x) # evs) q =
      (Blocked (fst (Update app model (appMsg x))),
       emit (Updates model (appMsg x))
         (if standard (renderer q) then rcall (handleMessages (appMsg x)) q else q))"
    using nd by (simp add: Let_def cmdsSend_def emit_keeps rcall_keeps)
  then show ?thesis
    using tr by (simp add: q_def [symmetric] rcall_def emit_def)
qed

section \<open>Quitting\<close>

text \<open>
  When the startup of \<^verbatim>\<open>Run\<close> has succeeded and left a cancel reader, the loop has
  handled the events so far and holds a model, the program is not killed, the quit
  message comes next and every handler finishes once the context is cancelled, \<^verbatim>\<open>Run\<close>
  quits gracefully: the loop returns at once with the current model and no error, with
  no update and no render; \<^verbatim>\<open>Run\<close> returns that model with no error, whatever events
  would follow, and after the loop it invokes the render exactly once, on that model, and
  writes the text to the renderer.
\<close>

lemma Run_quits_gracefully:
  assumes st: "startup app env p = Started registered p0"
    and reader: "cancelReader p0"
    and loop: "eventLoop app (initialModel p) evs (p0\<lparr>receiving := True\<rparr>) = (Waiting model, p1)"
    and alive: "\<not> ctxDone p1" "\<not> killBeforeCheck env"
    and js: "joins env p1"
  shows "eventLoop app model (SelectMsg quitMsg # evs') p1 = (Returned model None, p1)
       \<and> fst (Run app env (evs @ SelectMsg quitMsg # evs') p) = Returns model None
       \<and> filter shown (trace (snd (Run app env (evs @ SelectMsg quitMsg # evs') p)))
           = filter shown (trace p1) @ [Views model, Renders (writeFrame (View app model))]"
proof -
  define q1 where "q1 = p1\<lparr>receiving := False\<rparr>"
  have quit: "eventLoop app (initialModel p) (evs @ SelectMsg quitMsg # evs') (p0\<lparr>receiving := True\<rparr>)
      = (Returned model None, p1)"
    using eventLoop_append [OF loop, of "SelectMsg quitMsg # evs'"] by simp
  have run: "Run app env (evs @ SelectMsg quitMsg # evs') p =
             finish app env registered model None q1"
    by (simp add: Run_def st quit q1_def)
  have "cancelReader p1 = cancelReader (p0\<lparr>receiving := True\<rparr>)"
    using eventLoop_evolves [of app "initialModel p" evs "p0\<lparr>receiving := True\<rparr>"]
    by (simp add: loop)
  then have a1: "\<not> ctxDone q1" "cancelReader q1"
    using alive reader by (simp_all add: q1_def)
  have "joins env q1 = joins env p1"
    by (rule joins_same) (simp_all add: q1_def)
  then have a2: "joins env q1" using js by simp
  show ?thesis
    using finish_graceful [OF alive(2) a1 a2, of app registered model None]
    by (simp add: run q1_def)
qed

lemma Run_quits_counter:
  "fst (Run counter fine
          (map SelectMsg [appMsg ''inc'', appMsg ''inc'', appMsg ''noop'', appMsg ''inc'']
           @ [SelectMsg quitMsg]) program) = Returns 3 None
   \<and> filter shown (trace (snd (Run counter fine
          (map SelectMsg [appMsg ''inc'', appMsg ''inc'', appMsg ''noop'', appMsg ''inc'']
           @ [SelectMsg quitMsg]) program)))
       = [Views 0, Renders (writeFrame []),
          Updates 0 (appMsg ''inc''), Views 1, Renders (writeFrame ''x''),
          Updates 1 (appMsg ''inc''), Views 2, Renders (writeFrame ''xx''),
          Updates 2 (appMsg ''noop''), Views 2, Renders (writeFrame ''xx''),
          Updates 2 (appMsg ''inc''), Views 3, Renders (writeFrame ''xxx''),
          Views 3, Renders (writeFrame ''xxx'')]"
  by (simp add: evals numeral_eq_Suc)

text \<open>
  \<^verbatim>\<open>handlers.shutdown()\<close> waits for the dispatcher and for the goroutine of
  \<^verbatim>\<open>handleSignals\<close>. After a quit, \<^verbatim>\<open>Run\<close> makes the final render and then does not
  return while a command runs that does not return, or when a signal had been taken
  before another sender's quit was received: the signal goroutine stays in its plain
  send \<^verbatim>\<open>p.msgs <- quitMsg{}\<close>, which the loop, gone, will not receive.
\<close>

lemma Run_waits_for_handlers:
  "fst (Run listener fine [SelectMsg (appMsg ''listen''), SelectMsg quitMsg] program) = Joining"
  "filter shown (trace (snd (Run listener fine [SelectMsg (appMsg ''listen''), SelectMsg quitMsg]
      program)))
     = [Views 0, Renders (writeFrame []), Updates 0 (appMsg ''listen''), Views 0,
        Renders (writeFrame []), Views 0, Renders (writeFrame [])]"
  "fst (Run counter fine [SignalArrives, SelectMsg quitMsg] program) = Joining"
  "fst (Run counter fine [SignalArrives, SelectSignal] program) = Returns 0 None"
  "fst (Run counter (fine\<lparr>lateSignal := True\<rparr>) [SelectMsg quitMsg] program) = Joining"
  by (simp_all add: evals)

text \<open>
  C2 does not hold for a program without input. "Subscribe to user input" is guarded by
  \<^verbatim>\<open>p.input != nil\<close>, the teardown is not: once the loop has returned on the quit
  message (at once, with the current model and with no update: first conjunct) and the
  final render is done, \<^verbatim>\<open>p.cancelReader.Cancel()\<close> is a method call on a nil interface
  value and panics. \<^verbatim>\<open>Run\<close> does not return the last model with no error; the recovery
  makes it return the zero values.
\<close>

theorem quit_without_input_panics:
  assumes st: "startup app env p = Started registered p0"
    and reader: "\<not> cancelReader p0"
    and alive: "\<not> ctxDone p" "\<not> killBeforeCheck env"
  shows "eventLoop app model (SelectMsg quitMsg # evs) q = (Returned model None, q)
       \<and> fst (Run app env (SelectMsg quitMsg # evs) p) = Panicked
       \<and> filter shown (trace (snd (Run app env (SelectMsg quitMsg # evs) p)))
           = filter shown (trace p0)
             @ [Views (initialModel p), Renders (writeFrame (View app (initialModel p)))]"
proof -
  define q1 where "q1 = p0\<lparr>receiving := False\<rparr>"
  have run: "Run app env (SelectMsg quitMsg # evs) p =
             finish app env registered (initialModel p) None q1"
    by (simp add: Run_def st q1_def)
  have a1: "\<not> cancelReader q1" "\<not> ctxDone q1"
    using reader alive(1) startup_Started(2) [OF st] by (simp_all add: q1_def)
  show ?thesis
    using finish_panics(1) [OF a1(1), of app env registered "initialModel p" None]
      finish_panics(2) [OF a1(1) alive(2) a1(2), of app registered "initialModel p" None]
    by (simp add: run q1_def)
qed

theorem quit_without_input_panics_witness:
  "startup counter fine (program\<lparr>input := nilInput, startupOptions := withCustomInput\<rparr>)
     = Started False
         (ready (startup counter fine (program\<lparr>input := nilInput, startupOptions := withCustomInput\<rparr>)))
   \<and> \<not> cancelReader
         (ready (startup counter fine (program\<lparr>input := nilInput, startupOptions := withCustomInput\<rparr>)))
   \<and> \<not> ctxDone (program\<lparr>input := nilInput, startupOptions := withCustomInput\<rparr>)
   \<and> \<not> killBeforeCheck fine
   \<and> fst (Run counter fine [SelectMsg quitMsg]
            (program\<lparr>input := nilInput, startupOptions := withCustomInput\<rparr>)) = Panicked
   \<and> filter shown (trace (snd (Run counter fine [SelectMsg quitMsg]
            (program\<lparr>input := nilInput, startupOptions := withCustomInput\<rparr>))))
       = [Views 0, Renders (writeFrame []), Views 0, Renders (writeFrame [])]"
proof -
  have st: "startup counter fine (program\<lparr>input := nilInput, startupOptions := withCustomInput\<rparr>)
     = Started False
         (ready (startup counter fine (program\<lparr>input := nilInput, startupOptions := withCustomInput\<rparr>)))"
    by (simp add: evals)
  have reader: "\<not> cancelReader
         (ready (startup counter fine (program\<lparr>input := nilInput, startupOptions := withCustomInput\<rparr>)))"
    by (simp add: evals)
  have alive: "\<not> ctxDone (program\<lparr>input := nilInput, startupOptions := withCustomInput\<rparr>)"
    "\<not> killBeforeCheck fine"
    by (simp_all add: evals)
  have tr: "filter shown (trace
         (ready (startup counter fine (program\<lparr>input := nilInput, startupOptions := withCustomInput\<rparr>))))
      = [Views 0, Renders (writeFrame [])]"
    by (simp add: evals)
  have init: "initialModel (program\<lparr>input := nilInput, startupOptions := withCustomInput\<rparr>) = 0"
    "View counter 0 = []"
    by (simp_all add: evals)
  show ?thesis
    using quit_without_input_panics [OF st reader alive, where evs = "[]"] st reader alive tr init
    by simp
qed

section \<open>Killing\<close>

text \<open>
  When the startup of \<^verbatim>\<open>Run\<close> has succeeded and left a cancel reader, the event loop has
  returned, the context is cancelled when \<^verbatim>\<open>Run\<close> reads it right after that (a \<^verbatim>\<open>Kill\<close>
  during the loop, or between its return and the read) and every handler finishes,
  \<^verbatim>\<open>Run\<close> reports the kill: it returns the model of the loop with \<^verbatim>\<open>ErrProgramKilled\<close>,
  whatever error the loop returned, and neither \<^verbatim>\<open>View\<close> nor the renderer's write is
  called after the loop has returned.
\<close>

lemma Run_killed:
  assumes st: "startup app env p = Started registered p0"
    and reader: "cancelReader p0"
    and loop: "eventLoop app (initialModel p) evs (p0\<lparr>receiving := True\<rparr>) = (Returned model err, p1)"
    and killed: "ctxDone p1 \<or> killBeforeCheck env"
    and js: "joins env p1"
  shows "fst (Run app env evs p) = Returns model (Some ErrProgramKilled)
       \<and> filter shown (trace (snd (Run app env evs p))) = filter shown (trace p1)"
proof -
  define q1 where "q1 = p1\<lparr>receiving := False\<rparr>"
  have run: "Run app env evs p = finish app env registered model err q1"
    by (simp add: Run_def st loop q1_def)
  have "cancelReader p1 = cancelReader (p0\<lparr>receiving := True\<rparr>)"
    using eventLoop_evolves [of app "initialModel p" evs "p0\<lparr>receiving := True\<rparr>"]
    by (simp add: loop)
  then have a1: "ctxDone q1 \<or> killBeforeCheck env" "cancelReader q1"
    using killed reader by (simp_all add: q1_def)
  have "joins env q1 = joins env p1"
    by (rule joins_same) (simp_all add: q1_def)
  then have a2: "joins env q1" using js by simp
  show ?thesis
    using finish_killed [OF a1 a2, of app registered model err]
    by (simp add: run q1_def)
qed

text \<open>
  A \<^verbatim>\<open>Kill\<close> seen by the loop; a \<^verbatim>\<open>Kill\<close> that comes after \<^verbatim>\<open>Run\<close> has read
  \<^verbatim>\<open>p.ctx.Err()\<close> (no error, and the final render is done); a \<^verbatim>\<open>Kill\<close> of a program
  without input (the panic of the teardown); a \<^verbatim>\<open>Kill\<close> while a command runs that does not
  return.
\<close>

lemma Run_killed_counter:
  "fst (Run counter fine [SelectMsg (appMsg ''inc''), KillCalled, SelectDone] program)
     = Returns 1 (Some ErrProgramKilled)"
  "filter shown
     (trace (snd (Run counter fine [SelectMsg (appMsg ''inc''), KillCalled, SelectDone] program)))
     = [Views 0, Renders (writeFrame []),
        Updates 0 (appMsg ''inc''), Views 1, Renders (writeFrame ''x'')]"
  "fst (Run counter (fine\<lparr>killAfterCheck := True\<rparr>) [SelectMsg quitMsg] program) = Returns 0 None"
  "filter shown
     (trace (snd (Run counter (fine\<lparr>killAfterCheck := True\<rparr>) [SelectMsg quitMsg] program)))
     = [Views 0, Renders (writeFrame []), Views 0, Renders (writeFrame [])]"
  "fst (Run counter fine [KillCalled, SelectDone]
          (program\<lparr>input := nilInput, startupOptions := withCustomInput\<rparr>)) = Panicked"
  "fst (Run listener fine [SelectMsg (appMsg ''listen''), KillCalled, SelectDone] program) = Joining"
  by (simp_all add: evals)

text \<open>
  C3 does not hold in every run. After a \<^verbatim>\<open>Kill\<close>, when the dispatcher has returned and
  the loop still takes a message (its \<^verbatim>\<open>select\<close> may take any ready case), the loop
  invokes the update and stays in its send \<^verbatim>\<open>cmds <- cmd\<close>, which has no
  \<^verbatim>\<open>p.ctx.Done()\<close> case: \<^verbatim>\<open>Run\<close> does not return, with \<^verbatim>\<open>ErrProgramKilled\<close> or
  otherwise, for every application, environment and program whose startup succeeds.
\<close>

theorem Run_kill_deadlocks:
  assumes st: "startup app env p = Started registered p0"
  shows "fst (Run app env (KillCalled # DispatcherExits # SelectMsg (appMsg x) # evs) p) = Deadlocked
       \<and> ctxDone (snd (Run app env (KillCalled # DispatcherExits # SelectMsg (appMsg x) # evs) p))"
proof -
  define q where "q = dispatcherExits (Kill (p0\<lparr>receiving := True\<rparr>))"
  have nd: "\<not> dispatching q" "ctxDone q"
    by (simp_all add: q_def dispatcherExits_def Kill_def cancel_def)
  have "eventLoop app (initialModel p) (SelectMsg (appMsg x) # evs) q =
      (Blocked (fst (Update app (initialModel p) (appMsg x))),
       emit (Updates (initialModel p) (appMsg x))
         (if standard (renderer q) then rcall (handleMessages (appMsg x)) q else q))"
    using nd by (simp add: Let_def cmdsSend_def emit_keeps rcall_keeps)
  then show ?thesis
    using nd by (simp add: Run_def st q_def [symmetric] rcall_keeps emit_keeps)
qed

theorem Run_kill_deadlocks_witness:
  "startup counter fine program = Started True (ready (startup counter fine program))
   \<and> fst (Run counter fine [KillCalled, DispatcherExits, SelectMsg (appMsg ''inc'')] program)
       = Deadlocked
   \<and> ctxDone (snd (Run counter fine [KillCalled, DispatcherExits, SelectMsg (appMsg ''inc'')] program))
   \<and> filter shown
       (trace (snd (Run counter fine [KillCalled, DispatcherExits, SelectMsg (appMsg ''inc'')] program)))
      = [Views 0, Renders (writeFrame []), Updates 0 (appMsg ''inc'')]"
proof -
  have st: "startup counter fine program = Started True (ready (startup counter fine program))"
    by (simp add: evals)
  have tr: "filter shown
       (trace (snd (Run counter fine [KillCalled, DispatcherExits, SelectMsg (appMsg ''inc'')] program)))
      = [Views 0, Renders (writeFrame []), Updates 0 (appMsg ''inc'')]"
    by (simp add: evals)
  show ?thesis
    using Run_kill_deadlocks [OF st, where x = "''inc''" and evs = "[]"] st tr
    by simp
qed


section \<open>Sending to a terminated program\<close>

text \<open>
  C4. Once the program's context is cancelled, \<^verbatim>\<open>Send\<close> returns for every message: its
  \<^verbatim>\<open>select\<close> has the \<^verbatim>\<open>Done\<close> case ready, so it never blocks; and when no event loop is
  receiving any more (the program has terminated) the message is dropped without any
  effect. \<^verbatim>\<open>Send\<close> has no error result, and nothing closes \<^verbatim>\<open>p.msgs\<close>, so it has no way
  to fail.
\<close>

theorem Send_after_termination:
  assumes "ctxDone p"
  shows "Send p pick msg \<noteq> Blocks \<and> (\<not> receiving p \<longrightarrow> Send p pick msg = Dropped)"
  using assms by (simp add: Send_def)

theorem Send_after_termination_witness:
  "ctxDone (snd (Run counter fine [SelectMsg quitMsg] program))
   \<and> Send (snd (Run counter fine [SelectMsg quitMsg] program)) False (appMsg ''inc'') \<noteq> Blocks
   \<and> \<not> receiving (snd (Run counter fine [SelectMsg quitMsg] program))
   \<and> Send (snd (Run counter fine [SelectMsg quitMsg] program)) False (appMsg ''inc'') = Dropped"
proof -
  have c: "ctxDone (snd (Run counter fine [SelectMsg quitMsg] program))"
    by (simp add: evals)
  have r: "\<not> receiving (snd (Run counter fine [SelectMsg quitMsg] program))"
    by (simp add: evals)
  show ?thesis
    using Send_after_termination [OF c, of False "appMsg ''inc''"] c r by simp
qed

section \<open>Printing to a terminated program\<close>

text \<open>
  C9. After \<^verbatim>\<open>Run\<close> has returned, on a program that was not running before, \<^verbatim>\<open>Println\<close>
  and \<^verbatim>\<open>Printf\<close> block: their send on \<^verbatim>\<open>p.msgs\<close> has no receiver and no alternative, so
  the call does not return, where \<^verbatim>\<open>Send\<close> drops its message and returns.
\<close>

theorem Println_after_Run_blocks:
  assumes "fst (Run app env evs p) = Returns model err" and "\<not> receiving p"
  shows "Println (snd (Run app env evs p)) args = Blocks
       \<and> Printf Sprintf (snd (Run app env evs p)) template args = Blocks
       \<and> Send (snd (Run app env evs p)) pick msg = Dropped"
  using Run_returned [OF assms(1)] assms(2)
  by (simp add: Println_def Printf_def Send_def)

theorem Println_after_Run_blocks_witness:
  "fst (Run counter fine [SelectMsg quitMsg] program) = Returns 0 None
   \<and> \<not> receiving program
   \<and> Println (snd (Run counter fine [SelectMsg quitMsg] program)) [''late''] = Blocks
   \<and> Printf (\<lambda>t as. t @ concat as) (snd (Run counter fine [SelectMsg quitMsg] program))
         ''too '' [''late''] = Blocks
   \<and> Send (snd (Run counter fine [SelectMsg quitMsg] program)) True (printLineMessage ''late'') = Dropped"
proof -
  have ret: "fst (Run counter fine [SelectMsg quitMsg] program) = Returns 0 None"
    by (simp add: evals)
  have fresh: "\<not> receiving program"
    by (simp add: program_def)
  show ?thesis
    using Println_after_Run_blocks [OF ret fresh, where args = "[''late'']"
            and Sprintf = "\<lambda>t as. t @ concat as" and template = "''too ''"
            and pick = True and msg = "printLineMessage ''late''"] ret fresh
    by simp
qed

section \<open>Nil commands\<close>

text \<open>
  C5 does not hold for the commands of a sequence. The dispatcher skips a nil command,
  but the goroutine that the event loop starts for a \<^verbatim>\<open>sequenceMsg\<close> calls every command
  of the list: it sends the messages of the commands before the first nil one, and panics
  at the nil one, whatever follows.
\<close>

theorem nil_in_sequence_panics:
  "sequence (map Cmd ms @ nilCmd # cmds) = Panics ms
   \<and> trace (special (sequenceMsg (map Cmd ms @ nilCmd # cmds)) p)
       = trace p @ [Go (sequenceTask (map Cmd ms @ nilCmd # cmds))]
   \<and> handleCommand nilCmd p = p"
proof -
  have "sequence (map Cmd ms @ nilCmd # cmds) = Panics ms"
    by (induction ms) simp_all
  then show ?thesis
    by (simp add: handleCommand_def emit_def)
qed

section \<open>Control messages and the update\<close>




section \<open>Releasing and restoring the terminal\<close>

text \<open>
  The alt-screen half of the round trip holds. \<^verbatim>\<open>ReleaseTerminal\<close> on a program with a
  cancel reader, followed by a \<^verbatim>\<open>RestoreTerminal\<close> that returns no error, leaves the
  alt-screen mode as it was before the release; on the restore exactly one of the two
  happens: the alt-screen is re-entered (it was active), or a goroutine is started that
  sends the repaint message.
\<close>

lemma release_restore_altScreen:
  assumes reader: "cancelReader p"
    and ok: "fst (RestoreTerminal env' (snd (ReleaseTerminal env p))) = None"
  shows "(\<exists>e. fst (ReleaseTerminal env p) = Ret e)
       \<and> altScreen (renderer (snd (RestoreTerminal env' (snd (ReleaseTerminal env p)))))
           = altScreen (renderer p)
       \<and> trace (snd (RestoreTerminal env' (snd (ReleaseTerminal env p))))
           = trace (snd (ReleaseTerminal env p))
             @ [External ''initTerminal'', External ''initCancelReader'']
             @ (if altScreen (renderer p) then [Renders enterAltScreen]
                else [Go (sendTask repaintMsg)])"
  using assms
  by (auto simp add: ReleaseTerminal_def RestoreTerminal_def initTerminal_def initCancelReader_def
        restoreTerminalState_def altScreen_def rcall_def emit_def Let_def
      split: option.splits)

text \<open>
  C7 does not hold for the mouse mode. \<^verbatim>\<open>ReleaseTerminal\<close> records the alt-screen mode
  only and \<^verbatim>\<open>RestoreTerminal\<close> calls no mouse method of the renderer: after the round
  trip both mouse modes are off, whatever they were before the release and whatever the
  helpers return, so a program that captured the mouse no longer does.
\<close>

theorem release_restore_loses_mouse:
  assumes "cancelReader p"
  shows "\<not> mouseCellMotion (renderer (snd (RestoreTerminal env' (snd (ReleaseTerminal env p)))))
       \<and> \<not> mouseAllMotion (renderer (snd (RestoreTerminal env' (snd (ReleaseTerminal env p)))))
       \<and> filter mouse (trace (snd (RestoreTerminal env' (snd (ReleaseTerminal env p)))))
           = filter mouse (trace (snd (ReleaseTerminal env p)))"
  using assms
  by (auto simp add: ReleaseTerminal_def RestoreTerminal_def initTerminal_def initCancelReader_def
        restoreTerminalState_def altScreen_def rcall_def emit_def Let_def
      split: option.splits)

theorem release_restore_loses_mouse_witness:
  "cancelReader capturing
   \<and> mouseCellMotion (renderer capturing)
   \<and> fst (ReleaseTerminal fine capturing) = Ret None
   \<and> fst (RestoreTerminal fine (snd (ReleaseTerminal fine capturing))) = None
   \<and> \<not> mouseCellMotion (renderer (snd (RestoreTerminal fine (snd (ReleaseTerminal fine capturing)))))
   \<and> \<not> mouseAllMotion (renderer (snd (RestoreTerminal fine (snd (ReleaseTerminal fine capturing)))))
   \<and> trace (snd (RestoreTerminal fine (snd (ReleaseTerminal fine capturing))))
       = [External ''cancelReader.Cancel'', External ''waitForReadLoop'',
          External ''restoreTerminalState'', External ''initTerminal'',
          External ''initCancelReader'', Go (sendTask repaintMsg)]"
proof -
  have reader: "cancelReader capturing"
    by (simp add: evals)
  have on: "mouseCellMotion (renderer capturing)"
    by (simp add: evals)
  have rel: "fst (ReleaseTerminal fine capturing) = Ret None"
    by (simp add: evals ReleaseTerminal_def altScreen_def)
  have ok: "fst (RestoreTerminal fine (snd (ReleaseTerminal fine capturing))) = None"
    by (simp add: evals ReleaseTerminal_def RestoreTerminal_def altScreen_def)
  have tr: "trace (snd (RestoreTerminal fine (snd (ReleaseTerminal fine capturing))))
       = [External ''cancelReader.Cancel'', External ''waitForReadLoop'',
          External ''restoreTerminalState'', External ''initTerminal'',
          External ''initCancelReader'', Go (sendTask repaintMsg)]"
    by (simp add: evals ReleaseTerminal_def RestoreTerminal_def altScreen_def)
  show ?thesis
    using release_restore_loses_mouse [OF reader, of fine fine] reader on rel ok tr by simp
qed

text \<open>
  The other ways the round trip ends: a \<^verbatim>\<open>RestoreTerminal\<close> that fails returns before
  the re-entry and the repaint, and \<^verbatim>\<open>ReleaseTerminal\<close> on a program without a cancel
  reader panics.
\<close>

lemma release_restore_otherwise:
  "trace (snd (RestoreTerminal (fine\<lparr>initTerminalErr := Some (infraError ''raw mode'')\<rparr>)
                   (snd (ReleaseTerminal fine capturing))))
      = [External ''cancelReader.Cancel'', External ''waitForReadLoop'',
         External ''restoreTerminalState'', External ''initTerminal'']"
  "fst (ReleaseTerminal fine program) = Panic"
  by (simp_all add: evals ReleaseTerminal_def RestoreTerminal_def altScreen_def)

section \<open>Mouse modes requested at startup\<close>

text \<open>
  C8. When both the cell-motion and the all-motion option are set, honoring the startup
  options enables cell motion only: the one mouse call is \<^verbatim>\<open>enableMouseCellMotion\<close>, and
  the all-motion mode of the renderer is left as it was. So a \<^verbatim>\<open>Run\<close> that has reached
  its event loop has made that one mouse call, and a \<^verbatim>\<open>Run\<close> that failed before has made
  that one or none.
\<close>

theorem cell_motion_takes_priority:
  assumes cell: "has (startupOptions p) withMouseCellMotion"
    and both: "has (startupOptions p) withMouseAllMotion"
  shows "filter mouse (trace (honorStartupOptions p))
           = filter mouse (trace p) @ [Renders enableMouseCellMotion]
       \<and> mouseCellMotion (renderer (honorStartupOptions p))
       \<and> mouseAllMotion (renderer (honorStartupOptions p)) = mouseAllMotion (renderer p)
       \<and> (filter mouse (trace (snd (Run app env [] p)))
            = filter mouse (trace p) @ [Renders enableMouseCellMotion]
          \<or> filter mouse (trace (snd (Run app env [] p))) = filter mouse (trace p)
             \<and> fst (Run app env [] p) \<noteq> StillLooping)"
proof -
  have "filter mouse (trace (snd (Run app env [] p)))
            = filter mouse (trace p) @ [Renders enableMouseCellMotion]
          \<or> filter mouse (trace (snd (Run app env [] p))) = filter mouse (trace p)
             \<and> fst (Run app env [] p) \<noteq> StillLooping"
    using startup_mouse [OF cell, of app env]
    by (cases "startup app env p") (auto simp add: Run_def)
  then show ?thesis
    using honorStartupOptions_mouse [OF cell] by simp
qed

theorem cell_motion_takes_priority_witness:
  "has (startupOptions (program\<lparr>startupOptions := 6\<rparr>)) withMouseCellMotion
   \<and> has (startupOptions (program\<lparr>startupOptions := 6\<rparr>)) withMouseAllMotion
   \<and> fst (Run counter fine [] (program\<lparr>startupOptions := 6\<rparr>)) = StillLooping
   \<and> filter mouse (trace (snd (Run counter fine [] (program\<lparr>startupOptions := 6\<rparr>))))
       = [Renders enableMouseCellMotion]
   \<and> mouseCellMotion (renderer (snd (Run counter fine [] (program\<lparr>startupOptions := 6\<rparr>))))
   \<and> \<not> mouseAllMotion (renderer (snd (Run counter fine [] (program\<lparr>startupOptions := 6\<rparr>))))"
proof -
  have cell: "has (startupOptions (program\<lparr>startupOptions := 6\<rparr>)) withMouseCellMotion"
    by (simp add: has_def withMouseCellMotion_def)
  have both: "has (startupOptions (program\<lparr>startupOptions := 6\<rparr>)) withMouseAllMotion"
    by (simp add: has_def withMouseAllMotion_def)
  have run: "fst (Run counter fine [] (program\<lparr>startupOptions := 6\<rparr>)) = StillLooping"
    by (simp add: evals)
  have modes: "mouseCellMotion (renderer (snd (Run counter fine [] (program\<lparr>startupOptions := 6\<rparr>))))"
    "\<not> mouseAllMotion (renderer (snd (Run counter fine [] (program\<lparr>startupOptions := 6\<rparr>))))"
    by (simp_all add: evals)
  have empty: "trace (program\<lparr>startupOptions := 6\<rparr>) = []"
    by (simp add: program_def)
  show ?thesis
    using cell_motion_takes_priority [OF cell both, of counter fine] cell both run modes empty
    by simp
qed

section \<open>Disabling the mouse\<close>

text \<open>
  C10. Whatever the state of the program, when the event loop receives the disable-mouse
  message the first two things it does are the renderer's \<^verbatim>\<open>disableMouseCellMotion\<close> and
  \<^verbatim>\<open>disableMouseAllMotion\<close>; after that one message both mouse modes are off and these
  are the only two mouse calls made.
\<close>

theorem disableMouse_disables_both:
  "prefix (trace p @ [Renders disableMouseCellMotion, Renders disableMouseAllMotion])
     (trace (snd (eventLoop app model (SelectMsg disableMouseMsg # evs) p)))
   \<and> \<not> mouseCellMotion (renderer (snd (eventLoop app model [SelectMsg disableMouseMsg] p)))
   \<and> \<not> mouseAllMotion (renderer (snd (eventLoop app model [SelectMsg disableMouseMsg] p)))
   \<and> filter mouse (trace (snd (eventLoop app model [SelectMsg disableMouseMsg] p)))
       = filter mouse (trace p) @ [Renders disableMouseCellMotion, Renders disableMouseAllMotion]"
proof -
  have fw: "forwarded (disableMouseMsg :: 'b Msg)" by simp
  have eff: "trace (special disableMouseMsg p)
      = trace p @ [Renders disableMouseCellMotion, Renders disableMouseAllMotion]"
    by (simp add: rcall_def emit_def)
  have "prefix (trace (special disableMouseMsg p))
      (trace (snd (eventLoop app model (SelectMsg disableMouseMsg # evs) p)))"
    using forwarded_prefix [OF fw, of p model app evs] by (rule append_prefixD)
  then have first: "prefix (trace p @ [Renders disableMouseCellMotion, Renders disableMouseAllMotion])
      (trace (snd (eventLoop app model (SelectMsg disableMouseMsg # evs) p)))"
    by (simp only: eff)
  have "\<not> mouseCellMotion (renderer (snd (eventLoop app model [SelectMsg disableMouseMsg] p)))"
    "\<not> mouseAllMotion (renderer (snd (eventLoop app model [SelectMsg disableMouseMsg] p)))"
    "filter mouse (trace (snd (eventLoop app model [SelectMsg disableMouseMsg] p)))
       = filter mouse (trace p) @ [Renders disableMouseCellMotion, Renders disableMouseAllMotion]"
    by (simp_all add: Let_def cmdsSend_def handleCommand_def rcall_def emit_def split: Cmd.split)
  with first show ?thesis by simp
qed

end
